theory Spec2Isabelle
  imports Main "HOL-Library.Multiset"
begin

section \<open>JavaScript values as the resource controller sees them\<close>

text \<open>
  The sources hold two revisions of the resource controller. The model follows the later
  one (\<open>src/unnamed/part_001\<close>), which answers conditional requests; the helpers
  \<open>isProjectionExclusive\<close>, \<open>checkIdThenAuthorize\<close> and
  \<open>makeDbCompletionHandler\<close> are the same in both.

  The controller handles request parameters, query strings, documents and database
  results without looking at their structure, except for truthiness tests and a few
  property reads. \<open>JDoc t fields\<close> is a database document whose
  \<open>getLastModified ()\<close> is the date with time value \<open>t\<close> (milliseconds);
  \<open>JFunction n\<close> is the built-in function named \<open>n\<close>. Numbers are integers: NaN
  and fractions do not occur in the model.
\<close>

datatype jsval =
    JUndefined
  | JNull
  | JBool bool
  | JNum int
  | JStr string
  | JFunction string
  | JArr "jsval list"
  | JObj "(string \<times> jsval) list"
  | JDoc int "(string \<times> jsval) list"

text \<open>JavaScript's ToBoolean: what \<open>if (v)\<close> and \<open>!v\<close> test.\<close>

fun truthy :: "jsval \<Rightarrow> bool" where
  "truthy JUndefined = False"
| "truthy JNull = False"
| "truthy (JBool b) = b"
| "truthy (JNum n) = (n \<noteq> 0)"
| "truthy (JStr s) = (s \<noteq> [])"
| "truthy (JFunction n) = True"
| "truthy (JArr xs) = True"
| "truthy (JObj fs) = True"
| "truthy (JDoc t fs) = True"

text \<open>\<open>o[k]\<close> on a plain object held as its list of properties in enumeration order.\<close>

definition obj_get :: "(string \<times> jsval) list \<Rightarrow> string \<Rightarrow> jsval" where
  "obj_get fs k = (case map_of fs k of None \<Rightarrow> JUndefined | Some v \<Rightarrow> v)"

text \<open>\<open>delete o[k]\<close>.\<close>

definition obj_delete :: "(string \<times> jsval) list \<Rightarrow> string \<Rightarrow> (string \<times> jsval) list" where
  "obj_delete fs k = filter (\<lambda>kv. fst kv \<noteq> k) fs"

text \<open>
  \<open>o[k] = v\<close>: an existing property keeps its place in the enumeration order, a new one
  goes last.
\<close>

fun obj_set :: "(string \<times> jsval) list \<Rightarrow> string \<Rightarrow> jsval \<Rightarrow> (string \<times> jsval) list" where
  "obj_set [] k v = [(k, v)]"
| "obj_set ((k', v') # fs) k v = (if k' = k then (k, v) # fs else (k', v') # obj_set fs k v)"

text \<open>\<open>_.extend (dst, src)\<close>: every property of \<open>src\<close> is assigned to \<open>dst\<close>.\<close>

fun extend_obj :: "(string \<times> jsval) list \<Rightarrow> (string \<times> jsval) list \<Rightarrow> (string \<times> jsval) list" where
  "extend_obj dst [] = dst"
| "extend_obj dst ((k, v) # src) = extend_obj (obj_set dst k v) src"

text \<open>
  \<open>v.k\<close> for the property names the controller reads from a query-string value
  (\<open>skip\<close>, \<open>limit\<close>, \<open>sort\<close>, \<open>populate\<close>) or from a document (the discriminator key).
  Objects and documents answer with their own property; an array inherits
  \<open>Array.prototype.sort\<close>; the other values have none of these properties.
\<close>

fun get_prop :: "jsval \<Rightarrow> string \<Rightarrow> jsval" where
  "get_prop (JObj fs) k = obj_get fs k"
| "get_prop (JDoc t fs) k = obj_get fs k"
| "get_prop (JArr xs) k = (if k = ''sort'' then JFunction ''sort'' else JUndefined)"
| "get_prop v k = JUndefined"

section \<open>Errors, requests and effects\<close>

text \<open>
  \<open>HttpError status message\<close> is the framework's error class; \<open>TypeError\<close> is the
  exception JavaScript throws on a property read of \<open>undefined\<close>/\<open>null\<close> or a call of
  something that is not a function; \<open>Failure v\<close> is any other truthy value handed to a
  callback as its error (validation errors, an error raised by a hook).
\<close>

datatype error = HttpError nat string | TypeError | Failure jsval

record req =
  params :: "(string \<times> jsval) list"
  query :: "(string \<times> jsval) list"
  body :: "(string \<times> jsval) list"
  headers :: "(string \<times> string) list"

text \<open>
  The model class of the ORM as far as the controller reads it: its name, and the
  discriminator models (\<open>None\<close> when the schema has none), listed by the value a
  document carries under the discriminator key, and the key of the discriminator mapping.
\<close>

datatype model =
  Model (modelName: string) (discriminatorKey: string) (discriminators: "(jsval \<times> model) list option")

text \<open>The calls the controller makes on the ORM, with their arguments.\<close>

datatype db_call =
    Create model jsval
  | FindOne jsval jsval
  | Find jsval jsval jsval
  | FindOneAndUpdate jsval jsval jsval
  | FindOneAndRemove jsval
  | Count jsval

text \<open>
  A header value written by the controller: \<open>UTCString t\<close> is the result of
  \<open>toUTCString ()\<close> on the date with time value \<open>t\<close>.
\<close>

datatype header_value = UTCString int

text \<open>What a handler does besides calling back: the observable trace of one run.\<close>

datatype effect =
    CheckBody jsval
  | Authorize
  | DbCall db_call
  | Emit string jsval
  | SetHeader string header_value

text \<open>
  A run yields its trace and either the error given to the callback (\<open>Inl\<close>) or a value
  (\<open>Inr\<close>); for an \<open>execute\<close> function the value is the body sent with
  \<open>res.status (200).json\<close> by \<open>makeTaskCompletionHandler\<close>. The stages of an
  \<open>async.waterfall\<close> or \<open>async.series\<close> are chained with \<open>io_bind\<close>: the first
  error ends the chain.
\<close>

type_synonym 'a io = "effect list \<times> (error + 'a)"

definition io_return :: "'a \<Rightarrow> 'a io" where
  "io_return x = ([], Inr x)"

definition io_fail :: "error \<Rightarrow> 'a io" where
  "io_fail e = ([], Inl e)"

definition io_effect :: "effect \<Rightarrow> unit io" where
  "io_effect ef = ([ef], Inr ())"

definition io_lift :: "error + 'a \<Rightarrow> 'a io" where
  "io_lift r = ([], r)"

definition io_bind :: "'a io \<Rightarrow> ('a \<Rightarrow> 'b io) \<Rightarrow> 'b io" where
  "io_bind m f =
     (case m of
        (tr, Inl e) \<Rightarrow> (tr, Inl e)
      | (tr, Inr x) \<Rightarrow> (case f x of (tr', r) \<Rightarrow> (tr @ tr', r)))"

definition emitted :: "effect list \<Rightarrow> (string \<times> jsval) list" where
  "emitted tr = concat (map (\<lambda>ef. case ef of Emit n v \<Rightarrow> [(n, v)] | _ \<Rightarrow> []) tr)"

definition db_calls :: "effect list \<Rightarrow> db_call list" where
  "db_calls tr = concat (map (\<lambda>ef. case ef of DbCall c \<Rightarrow> [c] | _ \<Rightarrow> []) tr)"

definition headers_set :: "effect list \<Rightarrow> (string \<times> header_value) list" where
  "headers_set tr = concat (map (\<lambda>ef. case ef of SetHeader n v \<Rightarrow> [(n, v)] | _ \<Rightarrow> []) tr)"

section \<open>The hooks and the surroundings of a controller\<close>

text \<open>
  The \<open>on\<close> option of an action: each hook is optional. A hook answers through its
  callback, with an error or with a value. The options hook is handed the options object
  itself, and \<open>update.execute\<close> goes on to use that object: the hook gives, beside its
  answer, the properties it leaves the object with. Other changes a hook makes to the
  request or to what it is handed are outside the model.
\<close>

record on_hooks =
  on_authorize :: "(req \<Rightarrow> error option) option"
  on_prepareProjection :: "(req \<Rightarrow> error + jsval) option"
  on_prepareOptions :: "(req \<Rightarrow> jsval \<Rightarrow> (error + jsval) \<times> (string \<times> jsval) list) option"
  on_prepareFilter :: "(req \<Rightarrow> jsval \<Rightarrow> error + jsval) option"
  on_updateFilter :: "(req \<Rightarrow> jsval \<Rightarrow> error + jsval) option"
  on_prepareDocument :: "(req \<Rightarrow> jsval \<Rightarrow> error + jsval) option"
  on_preCreate :: "(req \<Rightarrow> jsval \<Rightarrow> error + jsval) option"
  on_postExecute :: "(req \<Rightarrow> jsval \<Rightarrow> error + jsval) option"

text \<open>\<open>a || b\<close> where \<open>a\<close> is a function or undefined.\<close>

definition or_else :: "'a option \<Rightarrow> 'a \<Rightarrow> 'a" where
  "or_else a b = (case a of Some f \<Rightarrow> f | None \<Rightarrow> b)"

definition onAuthorize_default :: "req \<Rightarrow> error option" where
  "onAuthorize_default r = None"

definition onPrepareProjection_default :: "req \<Rightarrow> error + jsval" where
  "onPrepareProjection_default r = Inr (JObj [])"

text \<open>The own properties of an object; the default hooks change none.\<close>

fun own_properties :: "jsval \<Rightarrow> (string \<times> jsval) list" where
  "own_properties (JObj fs) = fs"
| "own_properties (JDoc t fs) = fs"
| "own_properties v = []"

definition onPrepareOptions_default ::
  "req \<Rightarrow> jsval \<Rightarrow> (error + jsval) \<times> (string \<times> jsval) list" where
  "onPrepareOptions_default r options = (Inr (JObj []), own_properties options)"

definition onUpdateFilter_default :: "req \<Rightarrow> jsval \<Rightarrow> error + jsval" where
  "onUpdateFilter_default r flt = Inr flt"

definition onPrepareDocument_default :: "req \<Rightarrow> jsval \<Rightarrow> error + jsval" where
  "onPrepareDocument_default r doc = Inr doc"

definition onPostExecute_default :: "req \<Rightarrow> jsval \<Rightarrow> error + jsval" where
  "onPostExecute_default r result = Inr result"

text \<open>
  Each action picks its hooks from the \<open>on\<close> option, falling back on the defaults
  above; \<open>updateFilter\<close> and \<open>preCreate\<close> are the deprecated names, tried first.
\<close>

definition authorize_of :: "on_hooks \<Rightarrow> req \<Rightarrow> error option" where
  "authorize_of on = or_else (on_authorize on) onAuthorize_default"

definition prepareProjection_of :: "on_hooks \<Rightarrow> req \<Rightarrow> error + jsval" where
  "prepareProjection_of on = or_else (on_prepareProjection on) onPrepareProjection_default"

definition prepareOptions_hook ::
  "on_hooks \<Rightarrow> req \<Rightarrow> jsval \<Rightarrow> (error + jsval) \<times> (string \<times> jsval) list" where
  "prepareOptions_hook on = or_else (on_prepareOptions on) onPrepareOptions_default"

text \<open>The answer of the options hook, and the properties it leaves its argument with.\<close>

definition prepareOptions_of :: "on_hooks \<Rightarrow> req \<Rightarrow> jsval \<Rightarrow> error + jsval" where
  "prepareOptions_of on r options = fst (prepareOptions_hook on r options)"

definition prepareOptions_left :: "on_hooks \<Rightarrow> req \<Rightarrow> jsval \<Rightarrow> (string \<times> jsval) list" where
  "prepareOptions_left on r options = snd (prepareOptions_hook on r options)"

definition prepareFilter_of :: "on_hooks \<Rightarrow> req \<Rightarrow> jsval \<Rightarrow> error + jsval" where
  "prepareFilter_of on =
     or_else (on_updateFilter on) (or_else (on_prepareFilter on) onUpdateFilter_default)"

definition prepareDocument_of :: "on_hooks \<Rightarrow> req \<Rightarrow> jsval \<Rightarrow> error + jsval" where
  "prepareDocument_of on =
     or_else (on_preCreate on) (or_else (on_prepareDocument on) onPrepareDocument_default)"

definition postExecute_of :: "on_hooks \<Rightarrow> req \<Rightarrow> jsval \<Rightarrow> error + jsval" where
  "postExecute_of on = or_else (on_postExecute on) onPostExecute_default"

text \<open>
  What the controller calls outside itself: the ORM (\<open>db\<close> answers a call with the
  \<open>err\<close> and \<open>result\<close> arguments of the completion callback), \<open>Date.parse\<close>, the
  request validator (\<open>req.checkBody (schema)\<close> followed by \<open>req.validationErrors ()\<close>)
  and the \<open>populate\<close> module (the details it calls back with, as a list of properties).
\<close>

record env =
  db :: "db_call \<Rightarrow> jsval \<times> jsval"
  date_parse :: "string \<Rightarrow> int"
  validationErrors :: "jsval \<Rightarrow> req \<Rightarrow> jsval"
  populate :: "jsval \<Rightarrow> model \<Rightarrow> (string \<times> jsval) list"

text \<open>The fields of a \<open>ResourceController\<close> instance.\<close>

record controller =
  rc_model :: model
  rc_name :: string
  rc_id :: string
  rc_pluralize :: string
  rc_eventPrefix :: "string option"
  rc_createValidation :: jsval
  rc_updateValidation :: jsval

section \<open>Helpers of the controller\<close>

text \<open>
  Modelled from the spec: the \<open>HttpHeader\<close> module is not among the sources. The spec
  names the two headers, \<open>Last-Modified\<close> and \<open>If-Modified-Since\<close>; request headers
  are read under their lower-case names.
\<close>

definition LAST_MODIFIED :: string where
  "LAST_MODIFIED = ''Last-Modified''"

definition IF_MODIFIED_SINCE :: string where
  "IF_MODIFIED_SINCE = ''if-modified-since''"

text \<open>
  Modelled from the spec: \<open>DateUtils.compare\<close> is not among the sources. The controller
  tests its result against \<open>-1\<close>, which the spec reads as "the first date is strictly
  earlier than the second": a three-way comparison of the two time values.
\<close>

definition DateUtils_compare :: "int \<Rightarrow> int \<Rightarrow> int" where
  "DateUtils_compare d1 d2 = (if d1 < d2 then - 1 else if d2 < d1 then 1 else 0)"

text \<open>\<open>isProjectionExclusive\<close>: a projection is an object, held in key enumeration order.\<close>

definition isProjectionExclusive :: "(string \<times> jsval) list \<Rightarrow> bool" where
  "isProjectionExclusive projection =
     (let keys = map fst projection in
      if length keys = 0 then True
      else (let v = obj_get projection (hd keys) in v = JBool False \<or> v = JNum 0))"

text \<open>\<open>item.getLastModified ()\<close>: only documents have the method.\<close>

fun getLastModified :: "jsval \<Rightarrow> error + int" where
  "getLastModified (JDoc t fs) = Inr t"
| "getLastModified v = Inl TypeError"

text \<open>\<open>req.headers[HttpHeader.lowercase.IF_MODIFIED_SINCE]\<close>, when it is truthy.\<close>

definition if_modified_since :: "req \<Rightarrow> string option" where
  "if_modified_since r =
     (case map_of (headers r) IF_MODIFIED_SINCE of
        None \<Rightarrow> None
      | Some s \<Rightarrow> (if s = [] then None else Some s))"

definition checkIdThenAuthorize :: "string \<Rightarrow> (req \<Rightarrow> unit io) \<Rightarrow> req \<Rightarrow> unit io" where
  "checkIdThenAuthorize idKey next r =
     (if \<not> truthy (obj_get (params r) idKey) then io_fail (HttpError 400 ''Missing resource id'')
      else next r)"

definition makeDbCompletionHandler :: "string \<Rightarrow> jsval \<times> jsval \<Rightarrow> error + jsval" where
  "makeDbCompletionHandler errMsg answer =
     (case answer of (err, result) \<Rightarrow>
        if truthy err then Inl (HttpError 400 errMsg)
        else if \<not> truthy result then Inl (HttpError 404 ''Not Found'')
        else Inr result)"

definition computeEventName :: "controller \<Rightarrow> string \<Rightarrow> string" where
  "computeEventName rc action =
     (let prefix = (case rc_eventPrefix rc of None \<Rightarrow> [] | Some p \<Rightarrow> p);
          prefix' = (if length prefix \<noteq> 0 then prefix @ ''.'' else prefix)
      in prefix' @ rc_name rc @ ''.'' @ action)"

text \<open>One call of the ORM, completed by \<open>makeDbCompletionHandler\<close>.\<close>

definition db_execute :: "env \<Rightarrow> db_call \<Rightarrow> string \<Rightarrow> jsval io" where
  "db_execute E call errMsg =
     io_bind (io_effect (DbCall call)) (\<lambda>_. io_lift (makeDbCompletionHandler errMsg (db E call)))"

text \<open>The two steps of validation that the actions put in an \<open>async.series\<close>.\<close>

definition checkBody_step :: "env \<Rightarrow> jsval \<Rightarrow> req \<Rightarrow> unit io" where
  "checkBody_step E schema r =
     io_bind (io_effect (CheckBody schema)) (\<lambda>_.
       let errors = validationErrors E schema r in
       if truthy errors then io_fail (Failure errors) else io_return ())"

definition authorize_step :: "on_hooks \<Rightarrow> req \<Rightarrow> unit io" where
  "authorize_step on r =
     io_bind (io_effect Authorize) (\<lambda>_.
       case authorize_of on r of None \<Rightarrow> io_return () | Some e \<Rightarrow> io_fail e)"

text \<open>
  The tail of \<open>get\<close> and \<open>getAll\<close>: the data under its key, extended with the
  populated details when the request asks for them.
\<close>

definition envelope :: "env \<Rightarrow> controller \<Rightarrow> string \<Rightarrow> jsval \<Rightarrow> jsval \<Rightarrow> jsval" where
  "envelope E rc key data wanted =
     (let result = [(key, data)] in
      if \<not> truthy wanted then JObj result
      else JObj (extend_obj result (populate E data (rc_model rc))))"

section \<open>The actions\<close>

subsection \<open>create\<close>

text \<open>
  \<open>resolveModel\<close>, local to \<open>create.execute\<close>: the discriminator model of the
  document, if the schema has discriminators. Reading the key of an undefined document
  and calling \<open>create\<close> on a discriminator that does not exist both throw.
\<close>

definition resolveModel :: "model \<Rightarrow> jsval \<Rightarrow> error + model" where
  "resolveModel M doc =
     (case discriminators M of
        None \<Rightarrow> Inr M
      | Some ds \<Rightarrow>
          if doc = JUndefined \<or> doc = JNull then Inl TypeError
          else (let discriminator = get_prop doc (discriminatorKey M) in
                if truthy discriminator then
                  (case map_of ds discriminator of None \<Rightarrow> Inl TypeError | Some M' \<Rightarrow> Inr M')
                else Inr M))"

definition create_validate :: "env \<Rightarrow> controller \<Rightarrow> on_hooks \<Rightarrow> req \<Rightarrow> unit io" where
  "create_validate E rc on r =
     io_bind (checkBody_step E (rc_createValidation rc) r) (\<lambda>_. authorize_step on r)"

definition create_execute :: "env \<Rightarrow> controller \<Rightarrow> on_hooks \<Rightarrow> req \<Rightarrow> jsval io" where
  "create_execute E rc on r =
     (let eventName = computeEventName rc ''created'';
          doc = obj_get (body r) (rc_name rc)
      in io_bind (io_lift (prepareDocument_of on r doc)) (\<lambda>doc.
         io_bind (io_lift (resolveModel (rc_model rc) doc)) (\<lambda>M.
         io_bind (db_execute E (Create M doc) ''Failed to create resource'') (\<lambda>result.
         io_bind (io_effect (Emit eventName result)) (\<lambda>_.
         io_bind (io_lift (getLastModified result)) (\<lambda>lastModified.
         io_bind (io_effect (SetHeader LAST_MODIFIED (UTCString lastModified))) (\<lambda>_.
         io_bind (io_lift (postExecute_of on r result)) (\<lambda>data.
         io_return (JObj [(rc_name rc, data)])))))))))"

subsection \<open>get\<close>

definition get_validate :: "controller \<Rightarrow> on_hooks \<Rightarrow> req \<Rightarrow> unit io" where
  "get_validate rc on = checkIdThenAuthorize (rc_id rc) (authorize_step on)"

text \<open>The filter that \<open>get\<close>, \<open>update\<close> and \<open>delete\<close> start from: \<open>{_id: rcId}\<close>.\<close>

definition id_filter :: "controller \<Rightarrow> req \<Rightarrow> jsval" where
  "id_filter rc r = JObj [(''_id'', obj_get (params r) (rc_id rc))]"

text \<open>
  The test of the third stage of \<open>get.execute\<close>: with a truthy If-Modified-Since
  header, a document not modified after the header's date ends the run with 304.
\<close>

definition check_not_modified :: "env \<Rightarrow> req \<Rightarrow> int \<Rightarrow> unit io" where
  "check_not_modified E r lastModified =
     (case if_modified_since r of
        None \<Rightarrow> io_return ()
      | Some h \<Rightarrow>
          (let date = date_parse E h in
           if DateUtils_compare date lastModified \<noteq> - 1
           then io_fail (HttpError 304 ''Not Changed'')
           else io_return ()))"

definition get_execute :: "env \<Rightarrow> controller \<Rightarrow> on_hooks \<Rightarrow> req \<Rightarrow> jsval io" where
  "get_execute E rc on r =
     io_bind (io_lift (prepareFilter_of on r (id_filter rc r))) (\<lambda>query_filter.
     io_bind (io_lift (prepareProjection_of on r)) (\<lambda>query_projection.
     io_bind (db_execute E (FindOne query_filter query_projection)
                ''Failed to retrieve resource'') (\<lambda>result.
     io_bind (io_lift (getLastModified result)) (\<lambda>lastModified.
     io_bind (io_effect (SetHeader LAST_MODIFIED (UTCString lastModified))) (\<lambda>_.
     io_bind (check_not_modified E r lastModified) (\<lambda>_.
     io_bind (io_lift (postExecute_of on r result)) (\<lambda>data.
     io_return (envelope E rc (rc_name rc) data (obj_get (query r) ''populate'')))))))))"

subsection \<open>getAll\<close>

text \<open>
  The head of \<open>getAll.execute\<close>: \<open>opts\<close> is \<open>req.query.options || {}\<close>; when the
  query has truthy options they are deleted from \<open>req.query\<close> (the hooks and the filter
  see the request without them) and their truthy \<open>skip\<close>, \<open>limit\<close> and \<open>sort\<close> are
  copied into the fresh \<open>options\<close> object.
\<close>

definition getAll_opts :: "req \<Rightarrow> jsval" where
  "getAll_opts r =
     (let query_options = obj_get (query r) ''options'' in
      if truthy query_options then query_options else JObj [])"

definition getAll_request :: "req \<Rightarrow> req" where
  "getAll_request r =
     (if truthy (obj_get (query r) ''options'')
      then r\<lparr>query := obj_delete (query r) ''options''\<rparr> else r)"

definition copy_truthy :: "jsval \<Rightarrow> string \<Rightarrow> (string \<times> jsval) list" where
  "copy_truthy opts k = (if truthy (get_prop opts k) then [(k, get_prop opts k)] else [])"

definition getAll_options :: "req \<Rightarrow> jsval" where
  "getAll_options r =
     (if truthy (obj_get (query r) ''options'') then
        (let opts = getAll_opts r in
         JObj (copy_truthy opts ''skip'' @ copy_truthy opts ''limit'' @ copy_truthy opts ''sort''))
      else JObj [])"

text \<open>
  The iteration of \<open>async.some\<close> in \<open>processIfModifiedSince\<close>: is some item modified
  after the date? Every item is asked for its date, in order.
\<close>

fun some_modified_after :: "int \<Rightarrow> jsval list \<Rightarrow> error + bool" where
  "some_modified_after date [] = Inr False"
| "some_modified_after date (item # items) =
     (case getLastModified item of
        Inl e \<Rightarrow> Inl e
      | Inr lastModified \<Rightarrow>
          (case some_modified_after date items of
             Inl e \<Rightarrow> Inl e
           | Inr found \<Rightarrow> Inr (DateUtils_compare date lastModified = - 1 \<or> found)))"

definition processIfModifiedSince :: "env \<Rightarrow> string \<Rightarrow> jsval list \<Rightarrow> (jsval list) io" where
  "processIfModifiedSince E h data =
     (let date = date_parse E h in
      io_bind (io_lift (some_modified_after date data)) (\<lambda>result.
        if \<not> result then io_fail (HttpError 304 ''Not Changed'') else io_return data))"

definition processHeaders :: "env \<Rightarrow> req \<Rightarrow> jsval list \<Rightarrow> (jsval list) io" where
  "processHeaders E r result =
     (case if_modified_since r of
        None \<Rightarrow> io_return result
      | Some h \<Rightarrow> processIfModifiedSince E h result)"

text \<open>The \<open>async.reduce\<close> of \<open>setHeaders\<close> over the items after the first.\<close>

fun reduce_lastModified :: "int \<Rightarrow> jsval list \<Rightarrow> error + int" where
  "reduce_lastModified memo [] = Inr memo"
| "reduce_lastModified memo (item # items) =
     (case getLastModified item of
        Inl e \<Rightarrow> Inl e
      | Inr lastModified \<Rightarrow>
          reduce_lastModified
            (if DateUtils_compare memo lastModified = - 1 then lastModified else memo) items)"

definition setHeaders :: "jsval list \<Rightarrow> (jsval list) io" where
  "setHeaders data =
     (case data of
        [] \<Rightarrow> io_return data
      | first # rest \<Rightarrow>
          io_bind (io_lift (getLastModified first)) (\<lambda>lm0.
          io_bind (io_lift (reduce_lastModified lm0 rest)) (\<lambda>lastModified.
          io_bind (io_effect (SetHeader LAST_MODIFIED (UTCString lastModified))) (\<lambda>_.
          io_return data))))"

definition getAll_validate :: "on_hooks \<Rightarrow> req \<Rightarrow> unit io" where
  "getAll_validate on = authorize_step on"

text \<open>
  The third stage of \<open>getAll.execute\<close>. \<open>Model.find\<close> calls back with an array; a
  truthy result of another kind has no items with a \<open>getLastModified\<close> method, and the
  run ends in a thrown error.
\<close>

definition getAll_post :: "env \<Rightarrow> on_hooks \<Rightarrow> req \<Rightarrow> jsval \<Rightarrow> jsval io" where
  "getAll_post E on r result =
     (case result of
        JArr items \<Rightarrow>
          if length items = 0 then io_lift (postExecute_of on r result)
          else io_bind (processHeaders E r items) (\<lambda>data.
               io_bind (setHeaders data) (\<lambda>data.
               io_lift (postExecute_of on r (JArr data))))
      | _ \<Rightarrow> io_fail TypeError)"

definition getAll_execute :: "env \<Rightarrow> controller \<Rightarrow> on_hooks \<Rightarrow> req \<Rightarrow> jsval io" where
  "getAll_execute E rc on r0 =
     (let opts = getAll_opts r0;
          options = getAll_options r0;
          r = getAll_request r0
      in io_bind (io_lift (prepareFilter_of on r (JObj (query r)))) (\<lambda>query_filter.
         io_bind (io_lift (prepareProjection_of on r)) (\<lambda>query_projection.
         io_bind (io_lift (prepareOptions_of on r options)) (\<lambda>query_options.
         io_bind (db_execute E (Find query_filter query_projection query_options)
                    ''Failed to retrieve resource'') (\<lambda>result.
         io_bind (getAll_post E on r result) (\<lambda>data.
         io_return (envelope E rc (rc_pluralize rc) data (get_prop opts ''populate''))))))))"

subsection \<open>update\<close>

definition update_validate :: "env \<Rightarrow> controller \<Rightarrow> on_hooks \<Rightarrow> req \<Rightarrow> unit io" where
  "update_validate E rc on =
     checkIdThenAuthorize (rc_id rc) (\<lambda>r.
       io_bind (checkBody_step E (rc_updateValidation rc) r) (\<lambda>_. authorize_step on r))"

text \<open>The local objects of \<open>update.execute\<close>: \<open>update\<close> and \<open>options\<close>.\<close>

definition update_document :: "controller \<Rightarrow> req \<Rightarrow> jsval" where
  "update_document rc r = JObj [(''$set'', obj_get (body r) (rc_name rc))]"

definition update_options :: jsval where
  "update_options = JObj [(''upsert'', JBool False), (''new'', JBool True)]"

text \<open>
  In \<open>update.execute\<close> the options hook is handed the local \<open>options\<close> object and
  its answer is not used: the call of \<open>findOneAndUpdate\<close> takes that same object, as
  the hook has left it, with the projection stored under \<open>fields\<close>.
\<close>

definition update_call :: "controller \<Rightarrow> on_hooks \<Rightarrow> req \<Rightarrow> jsval \<Rightarrow> jsval \<Rightarrow> db_call" where
  "update_call rc on r query_filter query_projection =
     FindOneAndUpdate query_filter (update_document rc r)
       (JObj (obj_set (prepareOptions_left on r update_options) ''fields'' query_projection))"

definition update_execute :: "env \<Rightarrow> controller \<Rightarrow> on_hooks \<Rightarrow> req \<Rightarrow> jsval io" where
  "update_execute E rc on r =
     (let eventName = computeEventName rc ''updated''
      in io_bind (io_lift (prepareFilter_of on r (id_filter rc r))) (\<lambda>query_filter.
         io_bind (io_lift (prepareOptions_of on r update_options)) (\<lambda>query_options.
         io_bind (io_lift (prepareProjection_of on r)) (\<lambda>query_projection.
         io_bind (db_execute E (update_call rc on r query_filter query_projection)
                    ''Failed to update resource'') (\<lambda>result.
         io_bind (io_effect (Emit eventName result)) (\<lambda>_.
         io_bind (io_lift (getLastModified result)) (\<lambda>lastModified.
         io_bind (io_effect (SetHeader LAST_MODIFIED (UTCString lastModified))) (\<lambda>_.
         io_bind (io_lift (postExecute_of on r result)) (\<lambda>data.
         io_return (JObj [(rc_name rc, data)]))))))))))"

subsection \<open>delete\<close>

definition delete_validate :: "controller \<Rightarrow> on_hooks \<Rightarrow> req \<Rightarrow> unit io" where
  "delete_validate rc on = checkIdThenAuthorize (rc_id rc) (authorize_step on)"

definition delete_execute :: "env \<Rightarrow> controller \<Rightarrow> on_hooks \<Rightarrow> req \<Rightarrow> jsval io" where
  "delete_execute E rc on r =
     (let eventName = computeEventName rc ''deleted'' in
      io_bind (io_lift (prepareFilter_of on r (id_filter rc r))) (\<lambda>flt.
      io_bind (db_execute E (FindOneAndRemove flt) ''Failed to delete resource'') (\<lambda>result.
      io_bind (io_effect (Emit eventName result)) (\<lambda>_.
      io_bind (io_lift (postExecute_of on r result)) (\<lambda>result.
      io_return (JBool True))))))"

subsection \<open>count\<close>

definition count_validate :: "on_hooks \<Rightarrow> req \<Rightarrow> unit io" where
  "count_validate on = authorize_step on"

definition count_execute :: "env \<Rightarrow> controller \<Rightarrow> on_hooks \<Rightarrow> req \<Rightarrow> jsval io" where
  "count_execute E rc on r =
     io_bind (io_lift (prepareFilter_of on r (JObj (query r)))) (\<lambda>flt.
     io_bind (db_execute E (Count flt) ''Failed to count resources'') (\<lambda>count.
     io_bind (io_lift (postExecute_of on r count)) (\<lambda>count.
     io_return (JObj [(''count'', count)]))))"

section \<open>Population\<close>

text \<open>
  A \<open>Population\<close> (\<open>src/lib/populate/Population.js\<close>) collects the documents
  referenced from a document, model by model.

  Modelled from the spec: the classes of the entries of a populator, with their methods
  \<open>accept\<close> and \<open>populate\<close>, are not among the sources. Population resolves a
  reference field into the referenced document or documents: an entry says which model
  its path refers to and whether the path holds one id or an array of ids, and
  \<open>accept\<close> calls \<open>visitPopulateElement\<close> for the first kind and
  \<open>visitPopulateArray\<close> for the second.
\<close>

datatype populate_kind = PopulateElement | PopulateArray

datatype populate_t =
  Populate (kind: populate_kind) (db_name: string) (model_name: string)

text \<open>
  What a population is built with and what it calls: the populators by model key
  (\<open>this._populators\<close>), the \<open>pluralize\<close> library, \<open>toString ()\<close> on an id, and
  \<open>populate.populate (ids, callback)\<close>, the query that fetches the referenced documents
  and answers with an error or with the documents found.
\<close>

record pop_env =
  populators :: "string \<Rightarrow> (string \<times> populate_t) list option"
  pluralize :: "string \<Rightarrow> string"
  toString :: "jsval \<Rightarrow> string"
  fetch :: "populate_t \<Rightarrow> jsval \<Rightarrow> error + jsval"

text \<open>The two objects of an instance, \<open>this._ids\<close> and \<open>this.population\<close>, by plural name.\<close>

record population =
  pop_ids :: "string \<Rightarrow> string list option"
  pop_population :: "string \<Rightarrow> jsval list option"

text \<open>The constructor.\<close>

definition new_Population :: population where
  "new_Population = \<lparr>pop_ids = Map.empty, pop_population = Map.empty\<rparr>"

definition getKeyFromModel :: "populate_t \<Rightarrow> string" where
  "getKeyFromModel p = db_name p @ '':'' @ model_name p"

text \<open>
  A query that has been started by \<open>populate.populate (remaining, callback)\<close> and whose
  callback has not run yet: the populate entry, the plural name and the ids asked for.
\<close>

datatype fetch_task = Fetch populate_t string jsval

text \<open>
  \<open>visitPopulateElement\<close> on the collection of ids of the plural name: an id whose
  string is in the collection gives \<open>null\<close>; another one is pushed and handed on.
\<close>

definition visitPopulateElement :: "pop_env \<Rightarrow> string list \<Rightarrow> jsval \<Rightarrow> string list \<times> jsval" where
  "visitPopulateElement P coll v =
     (let idStr = toString P v in
      if idStr \<in> set coll then (coll, JNull) else (coll @ [idStr], v))"

text \<open>
  The \<open>async.filter\<close> of \<open>visitPopulateArray\<close>: the ids are tested in order, and one
  seen for the first time is pushed before the next is tested.
\<close>

fun filter_first_time :: "pop_env \<Rightarrow> string list \<Rightarrow> jsval list \<Rightarrow> string list \<times> jsval list" where
  "filter_first_time P coll [] = (coll, [])"
| "filter_first_time P coll (v # vs) =
     (let idStr = toString P v;
          firstTime = (idStr \<notin> set coll);
          coll' = (if firstTime then coll @ [idStr] else coll)
      in case filter_first_time P coll' vs of
           (coll'', result) \<Rightarrow> (coll'', if firstTime then v # result else result))"

text \<open>
  \<open>visitPopulateArray\<close>. The value under an array path is an array; no other value has
  ids to filter.
\<close>

definition visitPopulateArray :: "pop_env \<Rightarrow> string list \<Rightarrow> jsval \<Rightarrow> string list \<times> jsval" where
  "visitPopulateArray P coll v =
     (case v of
        JArr vs \<Rightarrow>
          (case filter_first_time P coll vs of
             (coll', result) \<Rightarrow> (coll', if length result > 0 then JArr result else JNull))
      | _ \<Rightarrow> (coll, JNull))"

text \<open>
  The body of the \<open>async.eachOf\<close> in \<open>_populate\<close> for one path of the populator, up
  to the start of the query: it runs without interruption. The state and the queries
  started so far are threaded through.
\<close>

definition populate_path ::
  "pop_env \<Rightarrow> jsval \<Rightarrow> string \<times> populate_t \<Rightarrow> population \<times> fetch_task list
     \<Rightarrow> population \<times> fetch_task list" where
  "populate_path P data entry acc =
     (case (entry, acc) of ((path, populate'), (s, tasks)) \<Rightarrow>
        let v = get_prop data path in
        if \<not> truthy v then (s, tasks)
        else
          let plural = pluralize P (model_name populate');
              s1 = (case pop_population s plural of
                      None \<Rightarrow> s\<lparr>pop_population := (pop_population s)(plural \<mapsto> [])\<rparr>
                    | Some ms \<Rightarrow> s);
              s2 = (case pop_ids s1 plural of
                      None \<Rightarrow> s1\<lparr>pop_ids := (pop_ids s1)(plural \<mapsto> [])\<rparr>
                    | Some c \<Rightarrow> s1);
              coll = (case pop_ids s2 plural of None \<Rightarrow> [] | Some c \<Rightarrow> c);
              visited = (case kind populate' of
                           PopulateElement \<Rightarrow> visitPopulateElement P coll v
                         | PopulateArray \<Rightarrow> visitPopulateArray P coll v);
              s3 = s2\<lparr>pop_ids := (pop_ids s2)(plural \<mapsto> fst visited)\<rparr>;
              remaining = snd visited
          in if \<not> truthy remaining then (s3, tasks)
             else (s3, tasks @ [Fetch populate' plural remaining]))"

text \<open>\<open>_populate\<close>, up to the queries it starts.\<close>

definition populate_sync ::
  "pop_env \<Rightarrow> (string \<times> populate_t) list \<Rightarrow> jsval \<Rightarrow> population \<times> fetch_task list
     \<Rightarrow> population \<times> fetch_task list" where
  "populate_sync P populator data acc =
     (if \<not> truthy data then acc else fold (populate_path P data) populator acc)"

definition populateElement ::
  "pop_env \<Rightarrow> string \<Rightarrow> jsval \<Rightarrow> population \<times> fetch_task list \<Rightarrow> population \<times> fetch_task list" where
  "populateElement P key doc acc =
     (case populators P key of
        None \<Rightarrow> acc
      | Some populator \<Rightarrow> populate_sync P populator doc acc)"

definition populateArray ::
  "pop_env \<Rightarrow> string \<Rightarrow> jsval list \<Rightarrow> population \<times> fetch_task list
     \<Rightarrow> population \<times> fetch_task list" where
  "populateArray P key arr acc =
     (case populators P key of
        None \<Rightarrow> acc
      | Some populator \<Rightarrow> fold (populate_sync P populator) arr acc)"

text \<open>
  The second stage of the waterfall in \<open>_populate\<close>, when the query of a task calls
  back: an error goes to the caller; a result is pushed on the population of the plural
  name and populated in turn, as an array or as one document.
\<close>

definition complete_fetch ::
  "pop_env \<Rightarrow> fetch_task \<Rightarrow> population \<Rightarrow> population \<times> fetch_task list" where
  "complete_fetch P task s =
     (case task of Fetch populate' plural remaining \<Rightarrow>
        (case fetch P populate' remaining of
           Inl e \<Rightarrow> (s, [])
         | Inr found \<Rightarrow>
             (case pop_population s plural of
                None \<Rightarrow> (s, [])
              | Some ms \<Rightarrow>
                  let s' = s\<lparr>pop_population := (pop_population s)(plural \<mapsto> ms @ [found])\<rparr>;
                      key = getKeyFromModel populate'
                  in (case found of
                        JArr items \<Rightarrow> populateArray P key items (s', [])
                      | _ \<Rightarrow> populateElement P key found (s', [])))))"

text \<open>
  An instance at work: its state, every query started so far, the queries that have not
  called back yet, and those whose callback has run, in the order in which they called
  back. The queries call back in any order: a schedule names, step by step, the position
  of the pending query that calls back next.
\<close>

record pop_config =
  pop_state :: population
  issued :: "fetch_task list"
  pending :: "fetch_task list"
  called_back :: "fetch_task list"

definition start_populateElement :: "pop_env \<Rightarrow> string \<Rightarrow> jsval \<Rightarrow> pop_config \<Rightarrow> pop_config" where
  "start_populateElement P key doc c =
     (case populateElement P key doc (pop_state c, []) of
        (s', new) \<Rightarrow>
          \<lparr>pop_state = s', issued = issued c @ new, pending = pending c @ new,
           called_back = called_back c\<rparr>)"

definition start_populateArray :: "pop_env \<Rightarrow> string \<Rightarrow> jsval list \<Rightarrow> pop_config \<Rightarrow> pop_config" where
  "start_populateArray P key arr c =
     (case populateArray P key arr (pop_state c, []) of
        (s', new) \<Rightarrow>
          \<lparr>pop_state = s', issued = issued c @ new, pending = pending c @ new,
           called_back = called_back c\<rparr>)"

definition pop_step :: "pop_env \<Rightarrow> pop_config \<Rightarrow> nat \<Rightarrow> pop_config" where
  "pop_step P c i =
     (if i < length (pending c) then
        (case complete_fetch P (pending c ! i) (pop_state c) of
           (s', new) \<Rightarrow>
             \<lparr>pop_state = s', issued = issued c @ new,
              pending = take i (pending c) @ drop (Suc i) (pending c) @ new,
              called_back = called_back c @ [pending c ! i]\<rparr>)
      else c)"

fun pop_run :: "pop_env \<Rightarrow> pop_config \<Rightarrow> nat list \<Rightarrow> pop_config" where
  "pop_run P c [] = c"
| "pop_run P c (i # schedule) = pop_run P (pop_step P c i) schedule"

text \<open>
  The ids an instance has seen and the results it has collected under a plural name, the
  plural name of a query and the id strings it asks for.
\<close>

definition ids_of :: "population \<Rightarrow> string \<Rightarrow> string list" where
  "ids_of s plural = (case pop_ids s plural of None \<Rightarrow> [] | Some c \<Rightarrow> c)"

definition population_of :: "population \<Rightarrow> string \<Rightarrow> jsval list" where
  "population_of s plural = (case pop_population s plural of None \<Rightarrow> [] | Some ms \<Rightarrow> ms)"

definition plural_of :: "fetch_task \<Rightarrow> string" where
  "plural_of task = (case task of Fetch populate' plural remaining \<Rightarrow> plural)"

definition id_strings :: "pop_env \<Rightarrow> fetch_task \<Rightarrow> string list" where
  "id_strings P task =
     (case task of Fetch populate' plural remaining \<Rightarrow>
        (case kind populate' of
           PopulateElement \<Rightarrow> [toString P remaining]
         | PopulateArray \<Rightarrow>
             (case remaining of JArr vs \<Rightarrow> map (toString P) vs | _ \<Rightarrow> [])))"

definition requested :: "pop_env \<Rightarrow> string \<Rightarrow> fetch_task list \<Rightarrow> string list" where
  "requested P plural tasks =
     concat (map (\<lambda>task. if plural_of task = plural then id_strings P task else []) tasks)"

text \<open>
  What the queries of a list have found for a plural name: one result for each query of
  that name that the database answers without error, in the order of the list.
\<close>

definition found_by :: "pop_env \<Rightarrow> fetch_task \<Rightarrow> jsval list" where
  "found_by P task =
     (case task of Fetch populate' plural remaining \<Rightarrow>
        (case fetch P populate' remaining of Inl e \<Rightarrow> [] | Inr found \<Rightarrow> [found]))"

definition pushed :: "pop_env \<Rightarrow> string \<Rightarrow> fetch_task list \<Rightarrow> jsval list" where
  "pushed P plural tasks =
     concat (map (\<lambda>task. if plural_of task = plural then found_by P task else []) tasks)"

text \<open>
  The invariant of an instance. Under every plural name no id string is listed twice;
  the id strings asked for by the queries started so far are exactly the listed ones, in
  order; and the population holds exactly one result for each query that has called back
  with one, in the order of the callbacks. Every query started is either pending or has
  called back, once; and the population of its plural name exists.
\<close>

definition pop_inv :: "pop_env \<Rightarrow> pop_config \<Rightarrow> bool" where
  "pop_inv P c =
     ((\<forall>plural. distinct (ids_of (pop_state c) plural)
         \<and> requested P plural (issued c) = ids_of (pop_state c) plural
         \<and> population_of (pop_state c) plural = pushed P plural (called_back c))
      \<and> mset (pending c) + mset (called_back c) = mset (issued c)
      \<and> (\<forall>task \<in> set (issued c). pop_population (pop_state c) (plural_of task) \<noteq> None))"

text \<open>
  The same while one uninterrupted piece runs: \<open>iss\<close> are the queries started before
  it, the second component of \<open>acc\<close> those it has started itself; the piece leaves the
  results collected so far, \<open>pop0\<close>, as they are.
\<close>

definition acc_inv :: "pop_env \<Rightarrow> fetch_task list \<Rightarrow> population \<times> fetch_task list \<Rightarrow> bool" where
  "acc_inv P iss acc =
     (\<forall>plural. distinct (ids_of (fst acc) plural)
        \<and> requested P plural (iss @ snd acc) = ids_of (fst acc) plural)"

definition acc_pop ::
  "fetch_task list \<Rightarrow> (string \<Rightarrow> jsval list) \<Rightarrow> population \<times> fetch_task list \<Rightarrow> bool" where
  "acc_pop iss pop0 acc =
     ((\<forall>plural. population_of (fst acc) plural = pop0 plural)
      \<and> (\<forall>task \<in> set (iss @ snd acc). pop_population (fst acc) (plural_of task) \<noteq> None))"

text \<open>An instance fresh from the constructor.\<close>

definition new_config :: pop_config where
  "new_config = \<lparr>pop_state = new_Population, issued = [], pending = [], called_back = []\<rparr>"

text \<open>
  A library for concrete runs: books refer to an author and to reviewers, authors to a
  friend; ids are strings; the query for an author answers with a document that names a
  friend.
\<close>

fun example_toString :: "jsval \<Rightarrow> string" where
  "example_toString (JStr s) = s"
| "example_toString v = ''[object Object]''"

definition example_fetch :: "populate_t \<Rightarrow> jsval \<Rightarrow> error + jsval" where
  "example_fetch p remaining =
     (case remaining of
        JArr vs \<Rightarrow> Inr (JArr (map (\<lambda>v. JObj [(''_id'', v), (''friend'', JStr ''a1'')]) vs))
      | v \<Rightarrow> Inr (JObj [(''_id'', v), (''friend'', JStr ''a3'')]))"

definition example_pop_env :: pop_env where
  "example_pop_env =
     \<lparr>populators =
        [''db:book'' \<mapsto> [(''author'', Populate PopulateElement ''db'' ''author''),
                         (''reviewers'', Populate PopulateArray ''db'' ''author'')],
         ''db:author'' \<mapsto> [(''friend'', Populate PopulateElement ''db'' ''author'')]],
      pluralize = (\<lambda>n. n @ ''s''),
      toString = example_toString,
      fetch = example_fetch\<rparr>"

definition example_book :: jsval where
  "example_book =
     JObj [(''title'', JStr ''HOL''), (''author'', JStr ''a1''),
           (''reviewers'', JArr [JStr ''a1'', JStr ''a2'', JStr ''a2''])]"

section \<open>Vocabulary of the properties\<close>

text \<open>
  A run maps database failures to HTTP errors when every call of the ORM in its trace
  that the ORM answers with an error ends the run with status 400 and the action's
  message, and every call answered without error and with a falsy result ends it with
  404.
\<close>

definition db_failure_mapped :: "string \<Rightarrow> env \<Rightarrow> jsval io \<Rightarrow> bool" where
  "db_failure_mapped errMsg E run =
     (\<forall>c \<in> set (db_calls (fst run)).
        (truthy (fst (db E c)) \<longrightarrow> snd run = Inl (HttpError 400 errMsg))
      \<and> (\<not> truthy (fst (db E c)) \<and> \<not> truthy (snd (db E c))
           \<longrightarrow> snd run = Inl (HttpError 404 ''Not Found'')))"

text \<open>
  The events that follow a call of the ORM: the one event of the given name with the
  result, when the ORM answers without error and with a truthy result; none otherwise.
\<close>

definition event_of :: "string \<Rightarrow> env \<Rightarrow> db_call \<Rightarrow> (string \<times> jsval) list" where
  "event_of eventName E c =
     (if \<not> truthy (fst (db E c)) \<and> truthy (snd (db E c)) then [(eventName, snd (db E c))]
      else [])"

text \<open>A result list of documents, each given by its modification time and its fields.\<close>

definition documents :: "(int \<times> (string \<times> jsval) list) list \<Rightarrow> jsval list" where
  "documents docs = map (\<lambda>d. JDoc (fst d) (snd d)) docs"

text \<open>
  The request carries a truthy If-Modified-Since header and no document of the list was
  modified after its date.
\<close>

definition not_changed :: "env \<Rightarrow> req \<Rightarrow> (int \<times> (string \<times> jsval) list) list \<Rightarrow> bool" where
  "not_changed E r docs =
     (case if_modified_since r of
        None \<Rightarrow> False
      | Some h \<Rightarrow> list_all (\<lambda>d. fst d \<le> date_parse E h) docs)"

subsection \<open>A small installation, for concrete runs\<close>

text \<open>An action created without options: no hook is given.\<close>

definition no_hooks :: on_hooks where
  "no_hooks =
     \<lparr>on_authorize = None, on_prepareProjection = None, on_prepareOptions = None,
      on_prepareFilter = None, on_updateFilter = None, on_prepareDocument = None,
      on_preCreate = None, on_postExecute = None\<rparr>"

text \<open>
  Surroundings in which the ORM gives the same answer to every call, every date header
  parses to the same time, validation finds nothing and nothing is populated.
\<close>

definition example_env :: "jsval \<times> jsval \<Rightarrow> int \<Rightarrow> env" where
  "example_env answer date =
     \<lparr>db = (\<lambda>c. answer), date_parse = (\<lambda>h. date),
      validationErrors = (\<lambda>schema r. JBool False), populate = (\<lambda>data M. [])\<rparr>"

definition example_rc :: controller where
  "example_rc =
     \<lparr>rc_model = Model ''user'' ''__t'' None, rc_name = ''user'', rc_id = ''userId'',
      rc_pluralize = ''users'', rc_eventPrefix = None,
      rc_createValidation = JObj [], rc_updateValidation = JObj []\<rparr>"

definition example_req ::
  "(string \<times> jsval) list \<Rightarrow> (string \<times> jsval) list \<Rightarrow> (string \<times> string) list \<Rightarrow> req" where
  "example_req ps q hs = \<lparr>params = ps, query = q, body = [], headers = hs\<rparr>"

text \<open>A request that carries the user Ann in its body.\<close>

definition example_body_req :: "(string \<times> jsval) list \<Rightarrow> req" where
  "example_body_req ps =
     \<lparr>params = ps, query = [], body = [(''user'', JObj [(''name'', JStr ''Ann'')])],
      headers = []\<rparr>"


section \<open>Properties\<close>

subsection \<open>Traces and outcomes of chained stages\<close>

lemma fst_io_bind:
  "fst (io_bind m f) = (case snd m of Inl e \<Rightarrow> fst m | Inr x \<Rightarrow> fst m @ fst (f x))"
  by (cases m) (simp add: io_bind_def split: sum.splits prod.splits)

lemma snd_io_bind:
  "snd (io_bind m f) = (case snd m of Inl e \<Rightarrow> Inl e | Inr x \<Rightarrow> snd (f x))"
  by (cases m) (simp add: io_bind_def split: sum.splits prod.splits)

lemma io_basic [simp]:
  "fst (io_return x) = []" "snd (io_return x) = Inr x"
  "fst (io_fail e) = []" "snd (io_fail e) = Inl e"
  "fst (io_lift r) = []" "snd (io_lift r) = r"
  "fst (io_effect ef) = [ef]" "snd (io_effect ef) = Inr ()"
  by (simp_all add: io_return_def io_fail_def io_lift_def io_effect_def)

lemma db_calls_simps [simp]:
  "db_calls [] = []"
  "db_calls (DbCall c # tr) = c # db_calls tr"
  "db_calls (Emit n v # tr) = db_calls tr"
  "db_calls (SetHeader h hv # tr) = db_calls tr"
  "db_calls (Authorize # tr) = db_calls tr"
  "db_calls (CheckBody sc # tr) = db_calls tr"
  "db_calls (tr @ tr') = db_calls tr @ db_calls tr'"
  by (simp_all add: db_calls_def)

lemma emitted_simps [simp]:
  "emitted [] = []"
  "emitted (DbCall c # tr) = emitted tr"
  "emitted (Emit n v # tr) = (n, v) # emitted tr"
  "emitted (SetHeader h hv # tr) = emitted tr"
  "emitted (Authorize # tr) = emitted tr"
  "emitted (CheckBody sc # tr) = emitted tr"
  "emitted (tr @ tr') = emitted tr @ emitted tr'"
  by (simp_all add: emitted_def)

lemma headers_set_simps [simp]:
  "headers_set [] = []"
  "headers_set (DbCall c # tr) = headers_set tr"
  "headers_set (Emit n v # tr) = headers_set tr"
  "headers_set (SetHeader h hv # tr) = (h, hv) # headers_set tr"
  "headers_set (Authorize # tr) = headers_set tr"
  "headers_set (CheckBody sc # tr) = headers_set tr"
  "headers_set (tr @ tr') = headers_set tr @ headers_set tr'"
  by (simp_all add: headers_set_def)

lemma fst_db_execute [simp]: "fst (db_execute E call msg) = [DbCall call]"
  by (simp add: db_execute_def fst_io_bind)

lemma snd_db_execute:
  "snd (db_execute E call msg) =
     (if truthy (fst (db E call)) then Inl (HttpError 400 msg)
      else if truthy (snd (db E call)) then Inr (snd (db E call))
      else Inl (HttpError 404 ''Not Found''))"
  by (simp add: db_execute_def snd_io_bind makeDbCompletionHandler_def split: prod.splits)

lemma fst_check_not_modified [simp]: "fst (check_not_modified E r lm) = []"
  by (simp add: check_not_modified_def Let_def split: option.splits)

lemma snd_check_not_modified:
  "snd (check_not_modified E r lm) =
     (case if_modified_since r of
        None \<Rightarrow> Inr ()
      | Some h \<Rightarrow> if lm \<le> date_parse E h then Inl (HttpError 304 ''Not Changed'') else Inr ())"
  by (simp add: check_not_modified_def Let_def DateUtils_compare_def split: option.splits)

lemma fst_processHeaders [simp]: "fst (processHeaders E r items) = []"
  by (simp add: processHeaders_def processIfModifiedSince_def Let_def fst_io_bind
        split: option.splits sum.splits)

lemma db_calls_setHeaders: "db_calls (fst (setHeaders data)) = []"
  by (simp add: setHeaders_def fst_io_bind split: list.splits sum.splits)

lemma db_calls_getAll_post [simp]: "db_calls (fst (getAll_post E on r result)) = []"
  by (cases result)
     (simp_all add: getAll_post_def fst_io_bind db_calls_setHeaders split: sum.splits)

text \<open>The definitions a concrete run unfolds.\<close>

lemmas hook_defs =
  authorize_of_def prepareProjection_of_def prepareOptions_of_def prepareOptions_left_def
  prepareOptions_hook_def prepareFilter_of_def
  prepareDocument_of_def postExecute_of_def or_else_def no_hooks_def
  onAuthorize_default_def onPrepareProjection_default_def onPrepareOptions_default_def
  onUpdateFilter_default_def onPrepareDocument_default_def onPostExecute_default_def

lemmas example_defs = example_env_def example_rc_def example_req_def example_body_req_def

lemmas io_defs =
  io_bind_def io_return_def io_fail_def io_lift_def io_effect_def db_execute_def
  makeDbCompletionHandler_def

subsection \<open>Database failures\<close>

lemma create_db_failure:
  "db_failure_mapped ''Failed to create resource'' E (create_execute E rc on r)"
  unfolding db_failure_mapped_def create_execute_def Let_def
  by (simp add: fst_io_bind snd_io_bind snd_db_execute split: sum.splits)

lemma get_db_failure:
  "db_failure_mapped ''Failed to retrieve resource'' E (get_execute E rc on r)"
  unfolding db_failure_mapped_def get_execute_def Let_def
  by (simp add: fst_io_bind snd_io_bind snd_db_execute split: sum.splits)

lemma getAll_db_failure:
  "db_failure_mapped ''Failed to retrieve resource'' E (getAll_execute E rc on r)"
  unfolding db_failure_mapped_def getAll_execute_def Let_def
  by (simp add: fst_io_bind snd_io_bind snd_db_execute split: sum.splits)

lemma update_db_failure:
  "db_failure_mapped ''Failed to update resource'' E (update_execute E rc on r)"
  unfolding db_failure_mapped_def update_execute_def Let_def
  by (simp add: fst_io_bind snd_io_bind snd_db_execute split: sum.splits)

lemma delete_db_failure:
  "db_failure_mapped ''Failed to delete resource'' E (delete_execute E rc on r)"
  unfolding db_failure_mapped_def delete_execute_def Let_def
  by (simp add: fst_io_bind snd_io_bind snd_db_execute split: sum.splits)

lemma count_db_failure:
  "db_failure_mapped ''Failed to count resources'' E (count_execute E rc on r)"
  unfolding db_failure_mapped_def count_execute_def Let_def
  by (simp add: fst_io_bind snd_io_bind snd_db_execute split: sum.splits)

text \<open>
  What the completion handler does: it answers 400 with the action's message when the ORM
  reports an error, 404 \<open>Not Found\<close> when the ORM reports no error and its result is
  falsy, and passes every other result on. In each of create, get, getAll, update, delete
  and count, a call of the ORM that fails in one of the two ways ends the run with that
  error.
\<close>

lemma db_completion_errors:
  "makeDbCompletionHandler errMsg (err, result) =
     (if truthy err then Inl (HttpError 400 errMsg)
      else if truthy result then Inr result
      else Inl (HttpError 404 ''Not Found''))
   \<and> db_failure_mapped ''Failed to create resource'' E (create_execute E rc on r)
   \<and> db_failure_mapped ''Failed to retrieve resource'' E (get_execute E rc on r)
   \<and> db_failure_mapped ''Failed to retrieve resource'' E (getAll_execute E rc on r)
   \<and> db_failure_mapped ''Failed to update resource'' E (update_execute E rc on r)
   \<and> db_failure_mapped ''Failed to delete resource'' E (delete_execute E rc on r)
   \<and> db_failure_mapped ''Failed to count resources'' E (count_execute E rc on r)"
  by (simp add: makeDbCompletionHandler_def create_db_failure get_db_failure getAll_db_failure
        update_db_failure delete_db_failure count_db_failure)

text \<open>
  C1 at a count of zero. The claim has 404 only when the ORM yields no result, null or
  undefined. When no document matches, the ORM reports no error and the count 0: the test
  \<open>!result\<close> of the completion handler takes the count for a missing result and the
  run ends with 404 \<open>Not Found\<close>, before the last stage of count, which answers
  \<open>{count: count}\<close>, is reached. A count of 3 is answered with 200 and
  \<open>{count: 3}\<close>, and getAll answers an empty list with 200.
\<close>

theorem count_zero_not_found:
  "db (example_env (JNull, JNum 0) 0) (Count (JObj [])) = (JNull, JNum 0)
   \<and> count_execute (example_env (JNull, JNum 0) 0) example_rc no_hooks (example_req [] [] [])
       = ([DbCall (Count (JObj []))], Inl (HttpError 404 ''Not Found''))
   \<and> count_execute (example_env (JNull, JNum 3) 0) example_rc no_hooks (example_req [] [] [])
       = ([DbCall (Count (JObj []))], Inr (JObj [(''count'', JNum 3)]))
   \<and> getAll_execute (example_env (JNull, JArr []) 0) example_rc no_hooks (example_req [] [] [])
       = ([DbCall (Find (JObj []) (JObj []) (JObj []))], Inr (JObj [(''users'', JArr [])]))"
  by (simp add: count_execute_def getAll_execute_def getAll_post_def getAll_opts_def
        getAll_options_def getAll_request_def envelope_def
        hook_defs example_defs io_defs obj_get_def)

subsection \<open>Projections\<close>

text \<open>
  C9. \<open>isProjectionExclusive\<close> is true of the empty projection; of any other it is true
  exactly when the value under the first key is \<open>false\<close> or \<open>0\<close>, whatever the
  other keys hold: \<open>{a: 1, b: 0}\<close> is not exclusive.
\<close>

theorem isProjectionExclusive_first_key:
  "isProjectionExclusive [] = True
   \<and> isProjectionExclusive ((k, v) # rest) = (v = JBool False \<or> v = JNum 0)
   \<and> isProjectionExclusive [(''a'', JNum 1), (''b'', JNum 0)] = False"
  by (simp add: isProjectionExclusive_def obj_get_def)

subsection \<open>Validation of the resource id\<close>

lemma fst_authorize_step: "fst (authorize_step on r) = [Authorize]"
  by (simp add: authorize_step_def fst_io_bind split: option.splits)

text \<open>
  C5. For get, update and delete: when the parameter under the controller's resource-id
  key is falsy, validation fails with 400 \<open>Missing resource id\<close> and its trace is empty
  (neither the authorize hook nor, for update, the body validation has run); when it is
  truthy, validation is the next step: the authorize hook for get and delete, the body
  validation followed by the authorize hook for update.
\<close>

theorem validate_checks_resource_id:
  "(\<not> truthy (obj_get (params r) (rc_id rc)) \<longrightarrow>
       get_validate rc on r = ([], Inl (HttpError 400 ''Missing resource id''))
     \<and> update_validate E rc on r = ([], Inl (HttpError 400 ''Missing resource id''))
     \<and> delete_validate rc on r = ([], Inl (HttpError 400 ''Missing resource id'')))
   \<and> (truthy (obj_get (params r) (rc_id rc)) \<longrightarrow>
       get_validate rc on r = authorize_step on r
     \<and> update_validate E rc on r =
         io_bind (checkBody_step E (rc_updateValidation rc) r) (\<lambda>_. authorize_step on r)
     \<and> delete_validate rc on r = authorize_step on r
     \<and> fst (get_validate rc on r) = [Authorize]
     \<and> (\<exists>tr. fst (update_validate E rc on r) = CheckBody (rc_updateValidation rc) # tr)
     \<and> fst (delete_validate rc on r) = [Authorize])"
  by (simp add: get_validate_def update_validate_def delete_validate_def
        checkIdThenAuthorize_def io_fail_def fst_authorize_step fst_io_bind checkBody_step_def
        split: sum.splits)

text \<open>
  Requests without an id, with an empty id and with the id \<open>42\<close>.
\<close>

theorem validate_checks_resource_id_witness:
  "get_validate example_rc no_hooks (example_req [] [] [])
     = ([], Inl (HttpError 400 ''Missing resource id''))
   \<and> update_validate (example_env (JNull, JNull) 0) example_rc no_hooks
       (example_req [(''userId'', JStr [])] [] [])
     = ([], Inl (HttpError 400 ''Missing resource id''))
   \<and> fst (update_validate (example_env (JNull, JNull) 0) example_rc no_hooks
       (example_req [(''userId'', JStr ''42'')] [] []))
     = [CheckBody (JObj []), Authorize]"
proof -
  let ?E = "example_env (JNull, JNull) 0"
  have h1: "\<not> truthy (obj_get (params (example_req [] [] [])) (rc_id example_rc))"
    by (simp add: example_defs obj_get_def)
  have h2: "\<not> truthy (obj_get (params (example_req [(''userId'', JStr [])] [] []))
              (rc_id example_rc))"
    by (simp add: example_defs obj_get_def)
  have h3: "truthy (obj_get (params (example_req [(''userId'', JStr ''42'')] [] []))
              (rc_id example_rc))"
    by (simp add: example_defs obj_get_def)
  have run: "fst (io_bind (checkBody_step ?E (rc_updateValidation example_rc)
                 (example_req [(''userId'', JStr ''42'')] [] []))
               (\<lambda>_. authorize_step no_hooks (example_req [(''userId'', JStr ''42'')] [] [])))
             = [CheckBody (JObj []), Authorize]"
    by (simp add: checkBody_step_def authorize_step_def hook_defs example_defs io_defs)
  from validate_checks_resource_id [of "example_req [] [] []" example_rc no_hooks ?E] h1
  have "get_validate example_rc no_hooks (example_req [] [] [])
          = ([], Inl (HttpError 400 ''Missing resource id''))" by blast
  moreover
  from validate_checks_resource_id
         [of "example_req [(''userId'', JStr [])] [] []" example_rc no_hooks ?E] h2
  have "update_validate ?E example_rc no_hooks (example_req [(''userId'', JStr [])] [] [])
          = ([], Inl (HttpError 400 ''Missing resource id''))" by blast
  moreover
  from validate_checks_resource_id
         [of "example_req [(''userId'', JStr ''42'')] [] []" example_rc no_hooks ?E] h3
  have "update_validate ?E example_rc no_hooks (example_req [(''userId'', JStr ''42'')] [] [])
          = io_bind (checkBody_step ?E (rc_updateValidation example_rc)
                 (example_req [(''userId'', JStr ''42'')] [] []))
               (\<lambda>_. authorize_step no_hooks (example_req [(''userId'', JStr ''42'')] [] []))"
    by blast
  ultimately show ?thesis using run by simp
qed

subsection \<open>Events\<close>

lemma create_events:
  "(db_calls (fst (create_execute E rc on r)), emitted (fst (create_execute E rc on r))) =
     (case prepareDocument_of on r (obj_get (body r) (rc_name rc)) of
        Inl e \<Rightarrow> ([], [])
      | Inr doc \<Rightarrow>
          (case resolveModel (rc_model rc) doc of
             Inl e \<Rightarrow> ([], [])
           | Inr M \<Rightarrow> ([Create M doc],
                       event_of (computeEventName rc ''created'') E (Create M doc))))"
  unfolding create_execute_def Let_def event_of_def
  by (simp add: fst_io_bind snd_io_bind snd_db_execute split: sum.splits)

lemma update_events:
  "(db_calls (fst (update_execute E rc on r)), emitted (fst (update_execute E rc on r))) =
     (case prepareFilter_of on r (id_filter rc r) of
        Inl e \<Rightarrow> ([], [])
      | Inr f \<Rightarrow>
          (case prepareOptions_of on r update_options of
             Inl e \<Rightarrow> ([], [])
           | Inr opt \<Rightarrow>
               (case prepareProjection_of on r of
                  Inl e \<Rightarrow> ([], [])
                | Inr p \<Rightarrow> ([update_call rc on r f p],
                            event_of (computeEventName rc ''updated'') E
                              (update_call rc on r f p)))))"
  unfolding update_execute_def Let_def event_of_def
  by (simp add: fst_io_bind snd_io_bind snd_db_execute split: sum.splits)

lemma delete_events:
  "(db_calls (fst (delete_execute E rc on r)), emitted (fst (delete_execute E rc on r))) =
     (case prepareFilter_of on r (id_filter rc r) of
        Inl e \<Rightarrow> ([], [])
      | Inr f \<Rightarrow> ([FindOneAndRemove f],
                  event_of (computeEventName rc ''deleted'') E (FindOneAndRemove f)))"
  unfolding delete_execute_def Let_def event_of_def
  by (simp add: fst_io_bind snd_io_bind snd_db_execute split: sum.splits)

text \<open>
  C6. The calls of the ORM and the events emitted in a run of create, update and delete,
  from the answers of the hooks and of the ORM. When the hooks before the call answer
  with values, the ORM is called exactly once; when it answers that call without error
  and with a result, exactly one event is emitted, named by \<open>computeEventName\<close> for
  \<open>created\<close>, \<open>updated\<close> or \<open>deleted\<close> and carrying that result; when it answers
  with an error or a falsy result, no event is emitted. When a hook before the call
  answers with an error, the ORM is not called and no event is emitted. The name is
  \<open>eventPrefix.name.action\<close> for a non-empty event prefix and \<open>name.action\<close>
  otherwise.
\<close>

theorem events_on_success:
  "(db_calls (fst (create_execute E rc on r)), emitted (fst (create_execute E rc on r))) =
     (case prepareDocument_of on r (obj_get (body r) (rc_name rc)) of
        Inl e \<Rightarrow> ([], [])
      | Inr doc \<Rightarrow>
          (case resolveModel (rc_model rc) doc of
             Inl e \<Rightarrow> ([], [])
           | Inr M \<Rightarrow> ([Create M doc],
                       event_of (computeEventName rc ''created'') E (Create M doc))))
   \<and> (db_calls (fst (update_execute E rc on r)), emitted (fst (update_execute E rc on r))) =
     (case prepareFilter_of on r (id_filter rc r) of
        Inl e \<Rightarrow> ([], [])
      | Inr f \<Rightarrow>
          (case prepareOptions_of on r update_options of
             Inl e \<Rightarrow> ([], [])
           | Inr opt \<Rightarrow>
               (case prepareProjection_of on r of
                  Inl e \<Rightarrow> ([], [])
                | Inr p \<Rightarrow> ([update_call rc on r f p],
                            event_of (computeEventName rc ''updated'') E
                              (update_call rc on r f p)))))
   \<and> (db_calls (fst (delete_execute E rc on r)), emitted (fst (delete_execute E rc on r))) =
     (case prepareFilter_of on r (id_filter rc r) of
        Inl e \<Rightarrow> ([], [])
      | Inr f \<Rightarrow> ([FindOneAndRemove f],
                  event_of (computeEventName rc ''deleted'') E (FindOneAndRemove f)))
   \<and> event_of eventName E c =
       (if \<not> truthy (fst (db E c)) \<and> truthy (snd (db E c)) then [(eventName, snd (db E c))]
        else [])
   \<and> computeEventName rc action =
       (case rc_eventPrefix rc of
          None \<Rightarrow> rc_name rc @ ''.'' @ action
        | Some eventPrefix \<Rightarrow>
            if eventPrefix \<noteq> [] then eventPrefix @ ''.'' @ rc_name rc @ ''.'' @ action
            else rc_name rc @ ''.'' @ action)"
proof -
  have "computeEventName rc action =
       (case rc_eventPrefix rc of
          None \<Rightarrow> rc_name rc @ ''.'' @ action
        | Some eventPrefix \<Rightarrow>
            if eventPrefix \<noteq> [] then eventPrefix @ ''.'' @ rc_name rc @ ''.'' @ action
            else rc_name rc @ ''.'' @ action)"
    by (simp add: computeEventName_def Let_def split: option.splits)
  with create_events [of E rc on r] update_events [of E rc on r] delete_events [of E rc on r]
    event_of_def [of eventName E c]
  show ?thesis by blast
qed

text \<open>
  The user Ann is created, updated and deleted, with one event each; an update whose
  write fails and a delete that finds nothing leave no event.
\<close>

theorem events_on_success_witness:
  "emitted (fst (create_execute (example_env (JNull, JDoc 7 [(''name'', JStr ''Ann'')]) 0)
       example_rc no_hooks (example_body_req [])))
     = [(''user.created'', JDoc 7 [(''name'', JStr ''Ann'')])]
   \<and> emitted (fst (update_execute (example_env (JNull, JDoc 8 [(''name'', JStr ''Ann'')]) 0)
       example_rc no_hooks (example_body_req [(''userId'', JStr ''42'')])))
     = [(''user.updated'', JDoc 8 [(''name'', JStr ''Ann'')])]
   \<and> emitted (fst (delete_execute (example_env (JNull, JDoc 8 [(''name'', JStr ''Ann'')]) 0)
       (example_rc\<lparr>rc_eventPrefix := Some ''app''\<rparr>) no_hooks
       (example_req [(''userId'', JStr ''42'')] [] [])))
     = [(''app.user.deleted'', JDoc 8 [(''name'', JStr ''Ann'')])]
   \<and> emitted (fst (update_execute (example_env (JStr ''write failed'', JNull) 0)
       example_rc no_hooks (example_body_req [(''userId'', JStr ''42'')]))) = []
   \<and> emitted (fst (delete_execute (example_env (JNull, JNull) 0)
       example_rc no_hooks (example_req [(''userId'', JStr ''42'')] [] []))) = []"
proof -
  let ?ann = "JObj [(''name'', JStr ''Ann'')]"
  let ?E1 = "example_env (JNull, JDoc 7 [(''name'', JStr ''Ann'')]) 0"
  let ?E2 = "example_env (JNull, JDoc 8 [(''name'', JStr ''Ann'')]) 0"
  let ?E3 = "example_env (JStr ''write failed'', JNull) 0"
  let ?E4 = "example_env (JNull, JNull) 0"
  let ?rc = "example_rc\<lparr>rc_eventPrefix := Some ''app''\<rparr>"
  let ?r1 = "example_body_req []"
  let ?r2 = "example_body_req [(''userId'', JStr ''42'')]"
  let ?r3 = "example_req [(''userId'', JStr ''42'')] [] []"
  let ?f = "JObj [(''_id'', JStr ''42'')]"
  have doc: "prepareDocument_of no_hooks ?r1 (obj_get (body ?r1) (rc_name example_rc))
               = Inr ?ann"
    by (simp add: hook_defs example_defs obj_get_def)
  have mdl: "resolveModel (rc_model example_rc) ?ann = Inr (rc_model example_rc)"
    by (simp add: resolveModel_def example_defs)
  have f2: "prepareFilter_of no_hooks ?r2 (id_filter example_rc ?r2) = Inr ?f"
    by (simp add: hook_defs example_defs id_filter_def obj_get_def)
  have f3: "prepareFilter_of no_hooks ?r3 (id_filter rc' ?r3) = Inr ?f"
    if "rc_id rc' = ''userId''" for rc' :: controller
    using that by (simp add: hook_defs example_defs id_filter_def obj_get_def)
  have o: "prepareOptions_of no_hooks r options = Inr (JObj [])" for r :: req and options
    by (simp add: hook_defs)
  have p: "prepareProjection_of no_hooks r = Inr (JObj [])" for r :: req
    by (simp add: hook_defs)
  have ev: "event_of n (example_env (e, v) d) c = (if \<not> truthy e \<and> truthy v then [(n, v)] else [])"
    for n e v d c
    by (simp add: event_of_def example_defs)
  have n1: "computeEventName example_rc ''created'' = ''user.created''"
    by (simp add: computeEventName_def example_defs)
  have n2: "computeEventName example_rc ''updated'' = ''user.updated''"
    by (simp add: computeEventName_def example_defs)
  have n3: "computeEventName ?rc ''deleted'' = ''app.user.deleted''"
    by (simp add: computeEventName_def example_defs)
  have n4: "rc_id ?rc = ''userId''" "rc_id example_rc = ''userId''"
    by (simp_all add: example_defs)
  note inst = events_on_success
  from inst [of ?E1 example_rc no_hooks ?r1]
  have "emitted (fst (create_execute ?E1 example_rc no_hooks ?r1))
          = [(''user.created'', JDoc 7 [(''name'', JStr ''Ann'')])]"
    by (simp add: doc mdl ev n1)
  moreover
  from inst [of ?E2 example_rc no_hooks ?r2]
  have "emitted (fst (update_execute ?E2 example_rc no_hooks ?r2))
          = [(''user.updated'', JDoc 8 [(''name'', JStr ''Ann'')])]"
    by (simp add: f2 o p ev n2)
  moreover
  from inst [of ?E2 ?rc no_hooks ?r3]
  have "emitted (fst (delete_execute ?E2 ?rc no_hooks ?r3))
          = [(''app.user.deleted'', JDoc 8 [(''name'', JStr ''Ann'')])]"
    by (simp add: f3 [OF n4(1)] ev n3)
  moreover
  from inst [of ?E3 example_rc no_hooks ?r2]
  have "emitted (fst (update_execute ?E3 example_rc no_hooks ?r2)) = []"
    by (simp add: f2 o p ev)
  moreover
  from inst [of ?E4 example_rc no_hooks ?r3]
  have "emitted (fst (delete_execute ?E4 example_rc no_hooks ?r3)) = []"
    by (simp add: f3 [OF n4(2)] ev)
  ultimately show ?thesis by simp
qed

subsection \<open>Conditional requests for one resource\<close>

text \<open>
  C2. In get, once the document is found: a request with an If-Modified-Since header whose
  date is not before the document's modification date ends with 304 \<open>Not Changed\<close>
  and no body is sent; without the header, or with a document modified after the header's
  date, the response is the data of the post-execute hook (the document itself, unless a
  hook changes it) under the model's name, extended by the populated details when the
  query asks for them.
\<close>

theorem get_if_modified_since:
  assumes "prepareFilter_of on r (id_filter rc r) = Inr f"
    and "prepareProjection_of on r = Inr p"
    and "db E (FindOne f p) = (err, JDoc lm fs)"
    and "\<not> truthy err"
  shows "(\<forall>h. if_modified_since r = Some h \<and> lm \<le> date_parse E h
            \<longrightarrow> snd (get_execute E rc on r) = Inl (HttpError 304 ''Not Changed''))
       \<and> ((if_modified_since r = None
            \<or> (\<exists>h. if_modified_since r = Some h \<and> date_parse E h < lm))
           \<and> postExecute_of on r (JDoc lm fs) = Inr data
            \<longrightarrow> snd (get_execute E rc on r) =
                  Inr (JObj (extend_obj [(rc_name rc, data)]
                         (if truthy (obj_get (query r) ''populate'')
                          then populate E data (rc_model rc) else []))))"
  using assms unfolding get_execute_def
  by (auto simp add: fst_io_bind snd_io_bind snd_db_execute snd_check_not_modified envelope_def
        Let_def split: sum.splits option.splits)

text \<open>
  A document modified at time 1000, asked for with a header of the same time, with an
  earlier header, and without a header.
\<close>

theorem get_if_modified_since_witness:
  "snd (get_execute (example_env (JNull, JDoc 1000 []) 1000) example_rc no_hooks
          (example_req [(''userId'', JStr ''42'')] []
             [(''if-modified-since'', ''Thu, 01 Jan 1970 00:00:01 GMT'')]))
     = Inl (HttpError 304 ''Not Changed'')
   \<and> snd (get_execute (example_env (JNull, JDoc 1000 []) 0) example_rc no_hooks
          (example_req [(''userId'', JStr ''42'')] []
             [(''if-modified-since'', ''Thu, 01 Jan 1970 00:00:00 GMT'')]))
     = Inr (JObj [(''user'', JDoc 1000 [])])
   \<and> snd (get_execute (example_env (JNull, JDoc 1000 []) 0) example_rc no_hooks
          (example_req [(''userId'', JStr ''42'')] [] []))
     = Inr (JObj [(''user'', JDoc 1000 [])])"
proof -
  let ?f = "JObj [(''_id'', JStr ''42'')]"
  let ?p = "JObj []"
  let ?r1 = "example_req [(''userId'', JStr ''42'')] []
               [(''if-modified-since'', ''Thu, 01 Jan 1970 00:00:01 GMT'')]"
  let ?r2 = "example_req [(''userId'', JStr ''42'')] []
               [(''if-modified-since'', ''Thu, 01 Jan 1970 00:00:00 GMT'')]"
  let ?r3 = "example_req [(''userId'', JStr ''42'')] [] []"
  let ?E1 = "example_env (JNull, JDoc 1000 []) 1000"
  let ?E2 = "example_env (JNull, JDoc 1000 []) 0"
  let ?E3 = "example_env (JNull, JDoc 1000 []) 0"
  have f: "prepareFilter_of no_hooks r (id_filter example_rc r) = Inr ?f"
    if "params r = [(''userId'', JStr ''42'')]" for r :: req
    using that by (simp add: hook_defs id_filter_def example_defs obj_get_def)
  have p: "prepareProjection_of no_hooks r = Inr ?p" for r :: req
    by (simp add: hook_defs)
  have post: "postExecute_of no_hooks r v = Inr v" for r :: req and v
    by (simp add: hook_defs)
  have h1: "if_modified_since ?r1 = Some ''Thu, 01 Jan 1970 00:00:01 GMT''
            \<and> (1000::int) \<le> date_parse ?E1 ''Thu, 01 Jan 1970 00:00:01 GMT''"
    by (simp add: if_modified_since_def IF_MODIFIED_SINCE_def example_defs)
  have h2: "if_modified_since ?r2 = Some ''Thu, 01 Jan 1970 00:00:00 GMT''
            \<and> date_parse ?E2 ''Thu, 01 Jan 1970 00:00:00 GMT'' < (1000::int)"
    by (simp add: if_modified_since_def IF_MODIFIED_SINCE_def example_defs)
  have h3: "if_modified_since ?r3 = None"
    by (simp add: if_modified_since_def IF_MODIFIED_SINCE_def example_defs)
  have q: "\<not> truthy (obj_get (query r) ''populate'')" if "query r = []" for r :: req
    using that by (simp add: obj_get_def)
  have "snd (get_execute ?E1 example_rc no_hooks ?r1) = Inl (HttpError 304 ''Not Changed'')"
    using get_if_modified_since [of no_hooks ?r1 example_rc ?f ?p ?E1 JNull 1000 "[]" JNull]
      f [of ?r1] p h1
    by (simp add: example_defs)
  moreover
  have "snd (get_execute ?E2 example_rc no_hooks ?r2) = Inr (JObj [(''user'', JDoc 1000 [])])"
    using get_if_modified_since
        [of no_hooks ?r2 example_rc ?f ?p ?E2 JNull 1000 "[]" "JDoc 1000 []"]
      f [of ?r2] p h2 post q [of ?r2]
    by (simp add: example_defs)
  moreover
  have "snd (get_execute ?E3 example_rc no_hooks ?r3) = Inr (JObj [(''user'', JDoc 1000 [])])"
    using get_if_modified_since
        [of no_hooks ?r3 example_rc ?f ?p ?E3 JNull 1000 "[]" "JDoc 1000 []"]
      f [of ?r3] p h3 post q [of ?r3]
    by (simp add: example_defs)
  ultimately show ?thesis by simp
qed

subsection \<open>Update\<close>




subsection \<open>Conditional requests for a list\<close>

lemma some_modified_after_documents:
  "some_modified_after date (documents docs) = Inr (\<exists>d \<in> set docs. date < fst d)"
  by (induction docs) (auto simp: documents_def DateUtils_compare_def)

lemma reduce_lastModified_documents:
  "reduce_lastModified memo (documents docs) = Inr (Max (insert memo (set (map fst docs))))"
proof (induction docs arbitrary: memo)
  case Nil
  then show ?case by (simp add: documents_def)
next
  case (Cons d docs)
  have step: "reduce_lastModified memo (documents (d # docs)) =
     reduce_lastModified (max memo (fst d)) (documents docs)"
    by (simp add: documents_def DateUtils_compare_def max_def)
  have "Max (insert (max memo (fst d)) (set (map fst docs))) =
        Max (insert memo (set (map fst (d # docs))))"
  proof (cases "docs = []")
    case True
    then show ?thesis by (simp add: max_def)
  next
    case False
    then show ?thesis by (simp add: max.assoc max.commute max.left_commute)
  qed
  with Cons.IH [of "max memo (fst d)"] step show ?case by simp
qed

lemma setHeaders_documents:
  assumes "docs \<noteq> []"
  shows "setHeaders (documents docs) =
       ([SetHeader LAST_MODIFIED (UTCString (Max (set (map fst docs))))], Inr (documents docs))"
proof -
  from assms obtain d rest where docs: "docs = d # rest" by (cases docs) auto
  have unfold: "documents (d # rest) = JDoc (fst d) (snd d) # documents rest"
    by (simp add: documents_def)
  show ?thesis
    unfolding docs unfold setHeaders_def
    by (simp add: reduce_lastModified_documents io_bind_def io_lift_def io_effect_def
          io_return_def)
qed

lemma processHeaders_documents:
  "processHeaders E r (documents docs) =
     (if not_changed E r docs then ([], Inl (HttpError 304 ''Not Changed''))
      else ([], Inr (documents docs)))"
  by (auto simp add: processHeaders_def processIfModifiedSince_def not_changed_def Let_def
        some_modified_after_documents io_bind_def io_lift_def io_fail_def io_return_def
        list_all_iff not_le
        split: option.splits)

lemma if_modified_since_getAll_request [simp]:
  "if_modified_since (getAll_request r) = if_modified_since r"
  by (simp add: getAll_request_def if_modified_since_def)

lemma not_changed_Some:
  "if_modified_since r = Some h \<Longrightarrow>
     not_changed E r docs = (\<not> (\<exists>d \<in> set docs. date_parse E h < fst d))"
  by (simp add: not_changed_def list_all_iff not_less)

lemma not_changed_getAll_request [simp]:
  "not_changed E (getAll_request r) docs = not_changed E r docs"
  by (simp add: not_changed_def)

lemma getAll_post_documents:
  "getAll_post E on r (JArr (documents docs)) =
     (if docs = [] then ([], postExecute_of on r (JArr []))
      else if not_changed E r docs then ([], Inl (HttpError 304 ''Not Changed''))
      else ([SetHeader LAST_MODIFIED (UTCString (Max (set (map fst docs))))],
            postExecute_of on r (JArr (documents docs))))"
proof (cases "docs = []")
  case True
  then show ?thesis by (simp add: getAll_post_def documents_def io_lift_def)
next
  case False
  then have "documents docs \<noteq> []" by (simp add: documents_def)
  with False show ?thesis
    by (simp add: getAll_post_def processHeaders_documents setHeaders_documents
          io_bind_def io_lift_def)
qed

lemma getAll_execute_documents:
  assumes "prepareFilter_of on (getAll_request r) (JObj (query (getAll_request r))) = Inr f"
    and "prepareProjection_of on (getAll_request r) = Inr p"
    and "prepareOptions_of on (getAll_request r) (getAll_options r) = Inr opt"
    and "db E (Find f p opt) = (err, JArr (documents docs))"
    and "\<not> truthy err"
  shows "getAll_execute E rc on r =
     io_bind (DbCall (Find f p opt) # fst (getAll_post E on (getAll_request r) (JArr (documents docs))),
              snd (getAll_post E on (getAll_request r) (JArr (documents docs))))
       (\<lambda>data. io_return (envelope E rc (rc_pluralize rc) data
                  (get_prop (getAll_opts r) ''populate'')))"
  using assms unfolding getAll_execute_def Let_def
  by (simp add: io_bind_def io_lift_def db_execute_def io_effect_def makeDbCompletionHandler_def
        split: prod.splits sum.splits)

text \<open>
  C3, as the code has it. In getAll, for a non-empty list of documents that is not
  answered with 304, the only header set is Last-Modified, with the UTC string of the
  latest modification date of the list; when the list is answered with 304, no header is
  set; for an empty list no header is set and the list goes to the post-execute hook and
  into the response, whatever the If-Modified-Since header says.
\<close>

theorem getAll_last_modified:
  assumes "prepareFilter_of on (getAll_request r) (JObj (query (getAll_request r))) = Inr f"
    and "prepareProjection_of on (getAll_request r) = Inr p"
    and "prepareOptions_of on (getAll_request r) (getAll_options r) = Inr opt"
    and "db E (Find f p opt) = (err, JArr (documents docs))"
    and "\<not> truthy err"
  shows "(docs \<noteq> [] \<and> \<not> not_changed E r docs \<longrightarrow>
            headers_set (fst (getAll_execute E rc on r)) =
              [(LAST_MODIFIED, UTCString (Max (set (map fst docs))))])
       \<and> (docs \<noteq> [] \<and> not_changed E r docs \<longrightarrow>
            headers_set (fst (getAll_execute E rc on r)) = [])
       \<and> (docs = [] \<longrightarrow>
            headers_set (fst (getAll_execute E rc on r)) = []
          \<and> (\<forall>data. postExecute_of on (getAll_request r) (JArr []) = Inr data \<longrightarrow>
                snd (getAll_execute E rc on r) =
                  Inr (JObj (extend_obj [(rc_pluralize rc, data)]
                         (if truthy (get_prop (getAll_opts r) ''populate'')
                          then populate E data (rc_model rc) else [])))))"
  unfolding getAll_execute_documents [OF assms] getAll_post_documents
  by (auto simp add: fst_io_bind snd_io_bind envelope_def Let_def split: sum.splits)

text \<open>
  Three documents of which one is newer than the header's date, and an empty list under
  the same header.
\<close>

theorem getAll_last_modified_witness:
  "headers_set (fst (getAll_execute
       (example_env (JNull, JArr [JDoc 3 [], JDoc 9 [], JDoc 5 []]) 0) example_rc no_hooks
       (example_req [] [] [(''if-modified-since'', ''Thu, 01 Jan 1970 00:00:00 GMT'')])))
     = [(''Last-Modified'', UTCString 9)]
   \<and> getAll_execute (example_env (JNull, JArr []) 0) example_rc no_hooks
       (example_req [] [] [(''if-modified-since'', ''Thu, 01 Jan 1970 00:00:00 GMT'')])
     = ([DbCall (Find (JObj []) (JObj []) (JObj []))], Inr (JObj [(''users'', JArr [])]))"
proof -
  let ?r = "example_req [] [] [(''if-modified-since'', ''Thu, 01 Jan 1970 00:00:00 GMT'')]"
  let ?E1 = "example_env (JNull, JArr [JDoc 3 [], JDoc 9 [], JDoc 5 []]) 0"
  let ?E2 = "example_env (JNull, JArr []) 0"
  let ?docs = "[(3, []), (9, []), (5, [])] :: (int \<times> (string \<times> jsval) list) list"
  have rq: "getAll_request ?r = ?r"
    by (simp add: getAll_request_def example_defs obj_get_def)
  have f: "prepareFilter_of no_hooks (getAll_request ?r) (JObj (query (getAll_request ?r)))
             = Inr (JObj [])"
    unfolding rq by (simp add: hook_defs example_defs)
  have p: "prepareProjection_of no_hooks (getAll_request ?r) = Inr (JObj [])"
    by (simp add: hook_defs)
  have opt: "prepareOptions_of no_hooks (getAll_request ?r) (getAll_options ?r) = Inr (JObj [])"
    by (simp add: hook_defs)
  have d1: "db ?E1 (Find (JObj []) (JObj []) (JObj [])) = (JNull, JArr (documents ?docs))"
    by (simp add: example_defs documents_def)
  have d2: "db ?E2 (Find (JObj []) (JObj []) (JObj [])) = (JNull, JArr (documents []))"
    by (simp add: example_defs documents_def)
  have nc: "\<not> not_changed ?E1 ?r ?docs"
    by (simp add: not_changed_def if_modified_since_def IF_MODIFIED_SINCE_def example_defs)
  have post: "postExecute_of no_hooks (getAll_request ?r) (JArr []) = Inr (JArr [])"
    by (simp add: hook_defs)
  have pop: "\<not> truthy (get_prop (getAll_opts ?r) ''populate'')"
    by (simp add: getAll_opts_def example_defs obj_get_def)
  have calls: "fst (getAll_execute ?E2 example_rc no_hooks ?r)
                 = [DbCall (Find (JObj []) (JObj []) (JObj []))]"
    by (simp add: getAll_execute_def getAll_post_def getAll_opts_def getAll_options_def
          getAll_request_def hook_defs example_defs io_defs obj_get_def envelope_def)
  have "headers_set (fst (getAll_execute ?E1 example_rc no_hooks ?r))
          = [(LAST_MODIFIED, UTCString (Max (set (map fst ?docs))))]"
    using getAll_last_modified [OF f p opt d1, where rc = example_rc] nc by simp
  moreover
  have "snd (getAll_execute ?E2 example_rc no_hooks ?r)
          = Inr (JObj [(rc_pluralize example_rc, JArr [])])"
    using getAll_last_modified [OF f p opt d2, where rc = example_rc] post pop by simp
  ultimately show ?thesis
    using calls by (simp add: LAST_MODIFIED_def example_rc_def prod_eq_iff)
qed

text \<open>
  C3 as stated promises the header for every non-empty list. Here the list has two
  documents, none modified after the header's date: the run ends with 304 before
  \<open>setHeaders\<close> is reached, and no header is set.
\<close>

theorem getAll_not_changed_counterexample:
  "getAll_execute (example_env (JNull, JArr [JDoc 3000 [], JDoc 9000 []]) 9000) example_rc
       no_hooks (example_req [] [] [(''if-modified-since'', ''Thu, 01 Jan 1970 00:00:09 GMT'')])
     = ([DbCall (Find (JObj []) (JObj []) (JObj []))], Inl (HttpError 304 ''Not Changed''))
   \<and> headers_set [DbCall (Find (JObj []) (JObj []) (JObj []))] = []"
  by (simp add: getAll_execute_def getAll_post_def getAll_opts_def getAll_options_def
        getAll_request_def processHeaders_def processIfModifiedSince_def if_modified_since_def
        IF_MODIFIED_SINCE_def DateUtils_compare_def
        hook_defs example_defs io_defs obj_get_def envelope_def headers_set_def)

text \<open>
  C4. In getAll, for a request with an If-Modified-Since header and a non-empty list of
  documents: when no document was modified after the header's date the run ends with 304
  \<open>Not Changed\<close>; when one was, the whole list goes to the post-execute hook, and
  the data of that hook goes into the response under the plural name.
\<close>

theorem getAll_if_modified_since:
  assumes "prepareFilter_of on (getAll_request r) (JObj (query (getAll_request r))) = Inr f"
    and "prepareProjection_of on (getAll_request r) = Inr p"
    and "prepareOptions_of on (getAll_request r) (getAll_options r) = Inr opt"
    and "db E (Find f p opt) = (err, JArr (documents docs))"
    and "\<not> truthy err"
    and "if_modified_since r = Some h"
    and "docs \<noteq> []"
  shows "(\<not> (\<exists>d \<in> set docs. date_parse E h < fst d) \<longrightarrow>
            snd (getAll_execute E rc on r) = Inl (HttpError 304 ''Not Changed''))
       \<and> ((\<exists>d \<in> set docs. date_parse E h < fst d)
           \<and> postExecute_of on (getAll_request r) (JArr (documents docs)) = Inr data \<longrightarrow>
            snd (getAll_execute E rc on r) =
              Inr (JObj (extend_obj [(rc_pluralize rc, data)]
                     (if truthy (get_prop (getAll_opts r) ''populate'')
                      then populate E data (rc_model rc) else []))))"
proof -
  have nc: "not_changed E r docs = (\<not> (\<exists>d \<in> set docs. date_parse E h < fst d))"
    by (rule not_changed_Some [OF assms(6)])
  show ?thesis
    unfolding getAll_execute_documents [OF assms(1-5)] getAll_post_documents
    using assms(7)
    by (simp add: snd_io_bind envelope_def Let_def nc)
qed

text \<open>
  Three documents, the latest modified at time 9, under a header of time 9 and under a
  header of time 4.
\<close>

theorem getAll_if_modified_since_witness:
  "snd (getAll_execute
          (example_env (JNull, JArr [JDoc 3000 [], JDoc 9000 [], JDoc 5000 []]) 9000)
          example_rc no_hooks
          (example_req [] [] [(''if-modified-since'', ''Thu, 01 Jan 1970 00:00:09 GMT'')]))
     = Inl (HttpError 304 ''Not Changed'')
   \<and> snd (getAll_execute
          (example_env (JNull, JArr [JDoc 3000 [], JDoc 9000 [], JDoc 5000 []]) 4000)
          example_rc no_hooks
          (example_req [] [] [(''if-modified-since'', ''Thu, 01 Jan 1970 00:00:04 GMT'')]))
     = Inr (JObj [(''users'', JArr [JDoc 3000 [], JDoc 9000 [], JDoc 5000 []])])"
proof -
  let ?h1 = "''Thu, 01 Jan 1970 00:00:09 GMT''"
  let ?h2 = "''Thu, 01 Jan 1970 00:00:04 GMT''"
  let ?r1 = "example_req [] [] [(''if-modified-since'', ?h1)]"
  let ?r2 = "example_req [] [] [(''if-modified-since'', ?h2)]"
  let ?E1 = "example_env (JNull, JArr [JDoc 3000 [], JDoc 9000 [], JDoc 5000 []]) 9000"
  let ?E2 = "example_env (JNull, JArr [JDoc 3000 [], JDoc 9000 [], JDoc 5000 []]) 4000"
  let ?docs = "[(3000, []), (9000, []), (5000, [])] :: (int \<times> (string \<times> jsval) list) list"
  have rq: "getAll_request (example_req [] [] hs) = example_req [] [] hs" for hs
    by (simp add: getAll_request_def example_defs obj_get_def)
  have f: "prepareFilter_of no_hooks (getAll_request (example_req [] [] hs))
             (JObj (query (getAll_request (example_req [] [] hs)))) = Inr (JObj [])" for hs
    unfolding rq by (simp add: hook_defs example_defs)
  have p: "prepareProjection_of no_hooks r = Inr (JObj [])" for r :: req
    by (simp add: hook_defs)
  have opt: "prepareOptions_of no_hooks r options = Inr (JObj [])" for r :: req and options
    by (simp add: hook_defs)
  have d1: "db ?E1 (Find (JObj []) (JObj []) (JObj [])) = (JNull, JArr (documents ?docs))"
    by (simp add: example_defs documents_def)
  have d2: "db ?E2 (Find (JObj []) (JObj []) (JObj [])) = (JNull, JArr (documents ?docs))"
    by (simp add: example_defs documents_def)
  have e: "\<not> truthy JNull" by simp
  have h1: "if_modified_since ?r1 = Some ?h1"
    by (simp add: if_modified_since_def IF_MODIFIED_SINCE_def example_defs)
  have h2: "if_modified_since ?r2 = Some ?h2"
    by (simp add: if_modified_since_def IF_MODIFIED_SINCE_def example_defs)
  have ne: "?docs \<noteq> []" by simp
  have old: "\<not> (\<exists>d \<in> set ?docs. date_parse ?E1 ?h1 < fst d)"
    by (simp add: example_defs)
  have new: "\<exists>d \<in> set ?docs. date_parse ?E2 ?h2 < fst d"
    by (simp add: example_defs)
  have post: "postExecute_of no_hooks r v = Inr v" for r :: req and v
    by (simp add: hook_defs)
  have pop: "\<not> truthy (get_prop (getAll_opts ?r2) ''populate'')"
    by (simp add: getAll_opts_def example_defs obj_get_def)
  have "snd (getAll_execute ?E1 example_rc no_hooks ?r1) = Inl (HttpError 304 ''Not Changed'')"
    using getAll_if_modified_since [OF f p opt d1 e h1 ne, where rc = example_rc] old by blast
  moreover
  have "snd (getAll_execute ?E2 example_rc no_hooks ?r2)
          = Inr (JObj (extend_obj [(rc_pluralize example_rc, JArr (documents ?docs))]
                  (if truthy (get_prop (getAll_opts ?r2) ''populate'')
                   then populate ?E2 (JArr (documents ?docs)) (rc_model example_rc) else [])))"
    using getAll_if_modified_since
        [OF f p opt d2 e h2 ne, where rc = example_rc and data = "JArr (documents ?docs)"]
      new post by blast
  ultimately show ?thesis
    using pop by (simp add: example_rc_def documents_def)
qed

subsection \<open>Query options of a list\<close>

text \<open>
  C7 at a request for ten documents, on an action without a \<open>prepareOptions\<close> hook:
  \<open>limit\<close> is copied from the query string into the options, the default hook
  answers with an empty object instead, and \<open>find\<close> is called without the limit.
\<close>

theorem getAll_default_options_dropped:
  "getAll_options (example_req [] [(''options'', JObj [(''limit'', JStr ''10'')])] [])
     = JObj [(''limit'', JStr ''10'')]
   \<and> db_calls (fst (getAll_execute E rc no_hooks
         (example_req [] [(''options'', JObj [(''limit'', JStr ''10'')])] [])))
     = [Find (JObj []) (JObj []) (JObj [])]"
  by (simp add: getAll_execute_def getAll_opts_def getAll_options_def getAll_request_def
        copy_truthy_def obj_delete_def hook_defs example_defs obj_get_def fst_io_bind
        split: sum.splits)

subsection \<open>Population\<close>

lemma plural_of_Fetch [simp]: "plural_of (Fetch pp plural remaining) = plural"
  by (simp add: plural_of_def)

lemma requested_append [simp]:
  "requested P plural (ts @ ts') = requested P plural ts @ requested P plural ts'"
  by (simp add: requested_def)

lemma requested_Nil [simp]: "requested P plural [] = []"
  by (simp add: requested_def)

lemma filter_first_time_appends:
  "filter_first_time P coll vs = (coll', result) \<Longrightarrow> coll' = coll @ map (toString P) result"
proof (induction vs arbitrary: coll coll' result)
  case Nil
  then show ?case by simp
next
  case (Cons v vs)
  let ?idStr = "toString P v"
  let ?coll1 = "if ?idStr \<notin> set coll then coll @ [?idStr] else coll"
  obtain c r where rec: "filter_first_time P ?coll1 vs = (c, r)"
    by (cases "filter_first_time P ?coll1 vs") auto
  have ih: "c = ?coll1 @ map (toString P) r"
    by (rule Cons.IH [OF rec])
  from Cons.prems rec
  have res: "coll' = c" "result = (if ?idStr \<notin> set coll then v # r else r)"
    by (auto simp: Let_def split: if_splits)
  show ?case unfolding res ih by simp
qed

lemma filter_first_time_distinct:
  "filter_first_time P coll vs = (coll', result) \<Longrightarrow> distinct coll \<Longrightarrow> distinct coll'"
proof (induction vs arbitrary: coll coll' result)
  case Nil
  then show ?case by simp
next
  case (Cons v vs)
  let ?idStr = "toString P v"
  let ?coll1 = "if ?idStr \<notin> set coll then coll @ [?idStr] else coll"
  obtain c r where rec: "filter_first_time P ?coll1 vs = (c, r)"
    by (cases "filter_first_time P ?coll1 vs") auto
  from Cons.prems(2) have d1: "distinct ?coll1" by simp
  from Cons.prems(1) rec have "coll' = c"
    by (auto simp: Let_def split: if_splits)
  with Cons.IH [OF rec d1] show ?case by simp
qed

lemma visitPopulateElement_appends:
  assumes "visitPopulateElement P coll v = (coll', remaining)" and "truthy v"
  shows "coll' = coll @ (if truthy remaining then [toString P remaining] else [])"
  using assms by (auto simp: visitPopulateElement_def Let_def split: if_splits)

lemma visitPopulateElement_distinct:
  assumes "visitPopulateElement P coll v = (coll', remaining)" and "distinct coll"
  shows "distinct coll'"
  using assms by (auto simp: visitPopulateElement_def Let_def split: if_splits)

lemma visitPopulateArray_appends:
  assumes "visitPopulateArray P coll v = (coll', remaining)"
  shows "coll' = coll @ (if truthy remaining
                         then (case remaining of JArr vs \<Rightarrow> map (toString P) vs | _ \<Rightarrow> [])
                         else [])"
proof (cases v)
  case (JArr vs)
  obtain c r where f: "filter_first_time P coll vs = (c, r)"
    by (cases "filter_first_time P coll vs") auto
  from filter_first_time_appends [OF f] have "c = coll @ map (toString P) r" .
  with assms JArr f show ?thesis
    by (cases r) (auto simp: visitPopulateArray_def)
qed (use assms in \<open>auto simp: visitPopulateArray_def\<close>)

lemma visitPopulateArray_distinct:
  assumes "visitPopulateArray P coll v = (coll', remaining)" and "distinct coll"
  shows "distinct coll'"
proof (cases v)
  case (JArr vs)
  obtain c r where f: "filter_first_time P coll vs = (c, r)"
    by (cases "filter_first_time P coll vs") auto
  from filter_first_time_distinct [OF f assms(2)] have "distinct c" .
  with assms JArr f show ?thesis
    by (auto simp: visitPopulateArray_def)
qed (use assms in \<open>auto simp: visitPopulateArray_def\<close>)

lemma ids_of_upd_population [simp]:
  "ids_of (s\<lparr>pop_population := m\<rparr>) plural = ids_of s plural"
  by (simp add: ids_of_def)

lemma ids_of_upd_ids:
  "ids_of (s\<lparr>pop_ids := (pop_ids s)(pl \<mapsto> c)\<rparr>) plural = (if plural = pl then c else ids_of s plural)"
  by (simp add: ids_of_def)

lemma populate_path_inv:
  assumes "acc_inv P iss acc"
  shows "acc_inv P iss (populate_path P data entry acc)"
proof -
  obtain path pp where entry: "entry = (path, pp)" by (cases entry)
  obtain s tasks where acc: "acc = (s, tasks)" by (cases acc)
  let ?v = "get_prop data path"
  show ?thesis
  proof (cases "truthy ?v")
    case False
    with assms show ?thesis by (simp add: populate_path_def entry acc)
  next
    case True
    let ?pl = "pluralize P (model_name pp)"
    let ?coll = "ids_of s ?pl"
    let ?visited = "case kind pp of
                      PopulateElement \<Rightarrow> visitPopulateElement P ?coll ?v
                    | PopulateArray \<Rightarrow> visitPopulateArray P ?coll ?v"
    obtain coll' remaining where vis: "?visited = (coll', remaining)" by (cases ?visited)
    define s3 where "s3 = populate_path P data entry acc"
    have inv: "distinct (ids_of s plural)" "requested P plural (iss @ tasks) = ids_of s plural"
      for plural
      using assms by (auto simp: acc_inv_def acc)
    have app: "coll' = ?coll @ (if truthy remaining
                                then id_strings P (Fetch pp ?pl remaining) else [])"
    proof (cases "kind pp")
      case PopulateElement
      with vis have "visitPopulateElement P ?coll ?v = (coll', remaining)" by simp
      from visitPopulateElement_appends [OF this True] PopulateElement
      show ?thesis by (simp add: id_strings_def)
    next
      case PopulateArray
      with vis have "visitPopulateArray P ?coll ?v = (coll', remaining)" by simp
      from visitPopulateArray_appends [OF this] PopulateArray
      show ?thesis by (simp add: id_strings_def)
    qed
    have dist: "distinct coll'"
    proof (cases "kind pp")
      case PopulateElement
      with vis have "visitPopulateElement P ?coll ?v = (coll', remaining)" by simp
      from visitPopulateElement_distinct [OF this inv(1)] show ?thesis .
    next
      case PopulateArray
      with vis have "visitPopulateArray P ?coll ?v = (coll', remaining)" by simp
      from visitPopulateArray_distinct [OF this inv(1)] show ?thesis .
    qed
    have ids3: "ids_of (fst s3) plural = (if plural = ?pl then coll' else ids_of s plural)"
      for plural
      using True vis
      by (auto simp: s3_def populate_path_def entry acc Let_def ids_of_def
            split: option.splits populate_kind.splits)
    have tasks3: "snd s3 = (if truthy remaining then tasks @ [Fetch pp ?pl remaining] else tasks)"
      using True vis
      by (auto simp: s3_def populate_path_def entry acc Let_def ids_of_def
            split: option.splits populate_kind.splits)
    have "acc_inv P iss s3"
      unfolding acc_inv_def
    proof (intro allI conjI)
      fix plural
      show "distinct (ids_of (fst s3) plural)"
        using dist inv(1) by (simp add: ids3)
      show "requested P plural (iss @ snd s3) = ids_of (fst s3) plural"
        using inv(2) [of plural] app
        by (auto simp: ids3 tasks3 requested_def)
    qed
    then show ?thesis by (simp add: s3_def)
  qed
qed

lemma populate_sync_inv:
  assumes "acc_inv P iss acc"
  shows "acc_inv P iss (populate_sync P populator data acc)"
proof -
  have "acc_inv P iss (fold (populate_path P data) populator acc)"
    using assms
  proof (induction populator arbitrary: acc)
    case Nil
    then show ?case by simp
  next
    case (Cons entry populator)
    from populate_path_inv [OF Cons.prems]
    have "acc_inv P iss (populate_path P data entry acc)" .
    from Cons.IH [OF this] show ?case by simp
  qed
  with assms show ?thesis by (simp add: populate_sync_def)
qed

lemma populateElement_inv:
  assumes "acc_inv P iss acc"
  shows "acc_inv P iss (populateElement P key doc acc)"
  using assms populate_sync_inv [OF assms]
  by (simp add: populateElement_def split: option.splits)

lemma populateArray_inv:
  assumes "acc_inv P iss acc"
  shows "acc_inv P iss (populateArray P key arr acc)"
proof (cases "populators P key")
  case None
  with assms show ?thesis by (simp add: populateArray_def)
next
  case (Some populator)
  have "acc_inv P iss (fold (populate_sync P populator) arr acc)"
    using assms
  proof (induction arr arbitrary: acc)
    case Nil
    then show ?case by simp
  next
    case (Cons doc arr)
    from Cons.IH [OF populate_sync_inv [OF Cons.prems]] show ?case by simp
  qed
  with Some show ?thesis by (simp add: populateArray_def)
qed

lemma filter_first_time_new:
  "filter_first_time P coll vs = (coll', result) \<Longrightarrow>
     \<forall>v \<in> set result. toString P v \<notin> set coll"
proof (induction vs arbitrary: coll coll' result)
  case Nil
  then show ?case by simp
next
  case (Cons v vs)
  let ?idStr = "toString P v"
  let ?coll1 = "if ?idStr \<notin> set coll then coll @ [?idStr] else coll"
  obtain c r where rec: "filter_first_time P ?coll1 vs = (c, r)"
    by (cases "filter_first_time P ?coll1 vs") auto
  from Cons.IH [OF rec] have ih: "\<forall>v \<in> set r. toString P v \<notin> set coll"
    by (auto split: if_splits)
  from Cons.prems rec
  have "result = (if ?idStr \<notin> set coll then v # r else r)"
    by (auto simp: Let_def split: if_splits)
  with ih show ?case by simp
qed

lemma pushed_append [simp]:
  "pushed P plural (ts @ ts') = pushed P plural ts @ pushed P plural ts'"
  by (simp add: pushed_def)

lemma pushed_Nil [simp]: "pushed P plural [] = []"
  by (simp add: pushed_def)

lemma populate_path_population:
  "pop_population (fst (populate_path P data (path, pp) (s, tasks))) =
     (if truthy (get_prop data path) then
        (case pop_population s (pluralize P (model_name pp)) of
           None \<Rightarrow> (pop_population s)(pluralize P (model_name pp) \<mapsto> [])
         | Some ms \<Rightarrow> pop_population s)
      else pop_population s)"
  by (simp add: populate_path_def Let_def split: option.splits populate_kind.splits)

lemma populate_path_tasks:
  "snd (populate_path P data (path, pp) (s, tasks)) = tasks
   \<or> (truthy (get_prop data path)
      \<and> (\<exists>remaining. snd (populate_path P data (path, pp) (s, tasks))
            = tasks @ [Fetch pp (pluralize P (model_name pp)) remaining]))"
  by (simp add: populate_path_def Let_def split: option.splits populate_kind.splits)

lemma populate_path_pop:
  assumes "acc_pop iss pop0 acc"
  shows "acc_pop iss pop0 (populate_path P data entry acc)"
proof -
  obtain path pp where entry: "entry = (path, pp)" by (cases entry)
  obtain s tasks where acc: "acc = (s, tasks)" by (cases acc)
  let ?res = "populate_path P data (path, pp) (s, tasks)"
  let ?pl = "pluralize P (model_name pp)"
  from assms have a: "population_of s plural = pop0 plural" for plural
    by (simp add: acc_pop_def acc)
  from assms have b: "pop_population s (plural_of task) \<noteq> None"
    if "task \<in> set (iss @ tasks)" for task
    using that by (simp add: acc_pop_def acc)
  have frame: "population_of (fst ?res) plural = population_of s plural" for plural
    by (simp add: population_of_def populate_path_population split: option.splits)
  have kept: "pop_population (fst ?res) pl \<noteq> None" if "pop_population s pl \<noteq> None" for pl
    using that by (auto simp: populate_path_population split: option.splits)
  have made: "pop_population (fst ?res) ?pl \<noteq> None" if "truthy (get_prop data path)"
    using that by (simp add: populate_path_population split: option.splits)
  have defined: "pop_population (fst ?res) (plural_of task) \<noteq> None"
    if "task \<in> set (iss @ snd ?res)" for task
  proof (cases "task \<in> set (iss @ tasks)")
    case True
    from kept [OF b [OF True]] show ?thesis .
  next
    case False
    with that populate_path_tasks [of P data path pp s tasks]
    obtain remaining where "truthy (get_prop data path)" "task = Fetch pp ?pl remaining"
      by auto
    with made show ?thesis by (simp add: plural_of_def)
  qed
  show ?thesis
    unfolding acc_pop_def entry acc
    using frame a defined by simp
qed

lemma populate_sync_pop:
  assumes "acc_pop iss pop0 acc"
  shows "acc_pop iss pop0 (populate_sync P populator data acc)"
proof -
  have "acc_pop iss pop0 (fold (populate_path P data) populator acc)"
    using assms
  proof (induction populator arbitrary: acc)
    case Nil
    then show ?case by simp
  next
    case (Cons entry populator)
    from Cons.IH [OF populate_path_pop [OF Cons.prems]] show ?case by simp
  qed
  with assms show ?thesis by (simp add: populate_sync_def)
qed

lemma populateElement_pop:
  assumes "acc_pop iss pop0 acc"
  shows "acc_pop iss pop0 (populateElement P key doc acc)"
  using assms populate_sync_pop [OF assms]
  by (simp add: populateElement_def split: option.splits)

lemma populateArray_pop:
  assumes "acc_pop iss pop0 acc"
  shows "acc_pop iss pop0 (populateArray P key arr acc)"
proof (cases "populators P key")
  case None
  with assms show ?thesis by (simp add: populateArray_def)
next
  case (Some populator)
  have "acc_pop iss pop0 (fold (populate_sync P populator) arr acc)"
    using assms
  proof (induction arr arbitrary: acc)
    case Nil
    then show ?case by simp
  next
    case (Cons doc arr)
    from Cons.IH [OF populate_sync_pop [OF Cons.prems]] show ?case by simp
  qed
  with Some show ?thesis by (simp add: populateArray_def)
qed

lemma acc_inv_start:
  "pop_inv P c \<Longrightarrow> acc_inv P (issued c) (pop_state c, [])"
  by (simp add: pop_inv_def acc_inv_def)

lemma acc_pop_start:
  "pop_inv P c \<Longrightarrow>
     acc_pop (issued c) (\<lambda>plural. pushed P plural (called_back c)) (pop_state c, [])"
  by (simp add: pop_inv_def acc_pop_def)

lemma pending_issued:
  assumes "pop_inv P c" and "task \<in> set (pending c)"
  shows "task \<in> set (issued c)"
proof -
  from assms(1) have "mset (pending c) + mset (called_back c) = mset (issued c)"
    by (simp add: pop_inv_def)
  then have "set (pending c) \<union> set (called_back c) = set (issued c)"
    by (metis set_mset_mset set_mset_union)
  with assms(2) show ?thesis by blast
qed

lemma complete_fetch_inv:
  assumes "pop_inv P c"
  shows "acc_inv P (issued c) (complete_fetch P task (pop_state c))"
proof -
  obtain pp plural remaining where task: "task = Fetch pp plural remaining" by (cases task)
  have start: "acc_inv P (issued c) (pop_state c, [])"
    by (rule acc_inv_start [OF assms])
  show ?thesis
  proof (cases "fetch P pp remaining")
    case (Inl e)
    with start show ?thesis by (simp add: complete_fetch_def task)
  next
    case (Inr found)
    show ?thesis
    proof (cases "pop_population (pop_state c) plural")
      case None
      with Inr start show ?thesis by (simp add: complete_fetch_def task)
    next
      case (Some ms)
      let ?s' = "(pop_state c)\<lparr>pop_population := (pop_population (pop_state c))(plural \<mapsto> ms @ [found])\<rparr>"
      have pushed: "acc_inv P (issued c) (?s', [])"
        using start by (simp add: acc_inv_def)
      have "acc_inv P (issued c)
              (case found of
                 JArr items \<Rightarrow> populateArray P (getKeyFromModel pp) items (?s', [])
               | _ \<Rightarrow> populateElement P (getKeyFromModel pp) found (?s', []))"
        using populateArray_inv [OF pushed] populateElement_inv [OF pushed]
        by (cases found) simp_all
      with Inr Some show ?thesis by (simp add: complete_fetch_def task Let_def)
    qed
  qed
qed

lemma complete_fetch_pop:
  assumes "pop_inv P c" and "task \<in> set (pending c)"
  shows "acc_pop (issued c) (\<lambda>plural. pushed P plural (called_back c @ [task]))
           (complete_fetch P task (pop_state c))"
proof -
  obtain pp plural remaining where task: "task = Fetch pp plural remaining" by (cases task)
  have start: "acc_pop (issued c) (\<lambda>plural. pushed P plural (called_back c)) (pop_state c, [])"
    by (rule acc_pop_start [OF assms(1)])
  from pending_issued [OF assms] assms(1)
  have "pop_population (pop_state c) (plural_of task) \<noteq> None"
    by (simp add: pop_inv_def)
  then obtain ms where Some: "pop_population (pop_state c) plural = Some ms"
    by (auto simp: task plural_of_def)
  show ?thesis
  proof (cases "fetch P pp remaining")
    case (Inl e)
    with start show ?thesis
      by (simp add: complete_fetch_def task acc_pop_def pushed_def found_by_def)
  next
    case (Inr found)
    let ?s' = "(pop_state c)\<lparr>pop_population := (pop_population (pop_state c))(plural \<mapsto> ms @ [found])\<rparr>"
    from start have pop: "population_of (pop_state c) pl = pushed P pl (called_back c)" for pl
      by (simp add: acc_pop_def)
    from start have def: "pop_population (pop_state c) (plural_of t) \<noteq> None"
      if "t \<in> set (issued c)" for t
      using that by (simp add: acc_pop_def)
    from pop [of plural] Some have ms: "ms = pushed P plural (called_back c)"
      by (simp add: population_of_def)
    have new_pop: "population_of ?s' pl = pushed P pl (called_back c @ [task])" for pl
    proof (cases "pl = plural")
      case True
      with Inr ms show ?thesis
        by (simp add: population_of_def pushed_def found_by_def task)
    next
      case False
      with pop [of pl] show ?thesis
        by (simp add: population_of_def pushed_def task)
    qed
    have new_def: "pop_population ?s' (plural_of t) \<noteq> None" if "t \<in> set (issued c)" for t
      using def [OF that] by simp
    have pushed: "acc_pop (issued c) (\<lambda>pl. pushed P pl (called_back c @ [task])) (?s', [])"
      using new_pop new_def by (simp add: acc_pop_def)
    have "acc_pop (issued c) (\<lambda>pl. pushed P pl (called_back c @ [task]))
              (case found of
                 JArr items \<Rightarrow> populateArray P (getKeyFromModel pp) items (?s', [])
               | _ \<Rightarrow> populateElement P (getKeyFromModel pp) found (?s', []))"
      using populateArray_pop [OF pushed] populateElement_pop [OF pushed]
      by (cases found) simp_all
    with Inr Some show ?thesis by (simp add: complete_fetch_def task Let_def)
  qed
qed

lemma config_inv:
  assumes "acc_inv P iss (s', new)"
    and "acc_pop iss (\<lambda>plural. pushed P plural cb) (s', new)"
    and "mset pnd + mset cb = mset (iss @ new)"
  shows "pop_inv P \<lparr>pop_state = s', issued = iss @ new, pending = pnd, called_back = cb\<rparr>"
  using assms by (simp add: pop_inv_def acc_inv_def acc_pop_def)

lemma pop_step_inv:
  assumes "pop_inv P c"
  shows "pop_inv P (pop_step P c i)"
proof (cases "i < length (pending c)")
  case False
  with assms show ?thesis by (simp add: pop_step_def)
next
  case True
  let ?task = "pending c ! i"
  obtain s' new where cf: "complete_fetch P ?task (pop_state c) = (s', new)"
    by (cases "complete_fetch P ?task (pop_state c)")
  from True have mem: "?task \<in> set (pending c)" by simp
  from complete_fetch_inv [OF assms, of ?task] cf
  have a: "acc_inv P (issued c) (s', new)" by simp
  from complete_fetch_pop [OF assms mem] cf
  have b: "acc_pop (issued c) (\<lambda>plural. pushed P plural (called_back c @ [?task])) (s', new)"
    by simp
  from assms have m: "mset (pending c) + mset (called_back c) = mset (issued c)"
    by (simp add: pop_inv_def)
  from True have split: "pending c = take i (pending c) @ ?task # drop (Suc i) (pending c)"
    by (rule id_take_nth_drop)
  have "mset (take i (pending c) @ drop (Suc i) (pending c) @ new)
          + mset (called_back c @ [?task])
        = mset (pending c) + mset (called_back c) + mset new"
    by (subst (3) split) simp
  with m have "mset (take i (pending c) @ drop (Suc i) (pending c) @ new)
          + mset (called_back c @ [?task]) = mset (issued c @ new)"
    by simp
  from config_inv [OF a b this] True cf show ?thesis by (simp add: pop_step_def)
qed

lemma pop_run_inv:
  "pop_inv P c \<Longrightarrow> pop_inv P (pop_run P c schedule)"
  by (induction schedule arbitrary: c) (simp_all add: pop_step_inv)

lemma start_populateElement_inv:
  assumes "pop_inv P c"
  shows "pop_inv P (start_populateElement P key doc c)"
proof -
  obtain s' new where r: "populateElement P key doc (pop_state c, []) = (s', new)"
    by (cases "populateElement P key doc (pop_state c, [])")
  from populateElement_inv [OF acc_inv_start [OF assms], of key doc] r
  have a: "acc_inv P (issued c) (s', new)" by simp
  from populateElement_pop [OF acc_pop_start [OF assms], of P key doc] r
  have b: "acc_pop (issued c) (\<lambda>plural. pushed P plural (called_back c)) (s', new)" by simp
  from assms have "mset (pending c @ new) + mset (called_back c) = mset (issued c @ new)"
    by (simp add: pop_inv_def)
  from config_inv [OF a b this] r show ?thesis by (simp add: start_populateElement_def)
qed

lemma start_populateArray_inv:
  assumes "pop_inv P c"
  shows "pop_inv P (start_populateArray P key arr c)"
proof -
  obtain s' new where r: "populateArray P key arr (pop_state c, []) = (s', new)"
    by (cases "populateArray P key arr (pop_state c, [])")
  from populateArray_inv [OF acc_inv_start [OF assms], of key arr] r
  have a: "acc_inv P (issued c) (s', new)" by simp
  from populateArray_pop [OF acc_pop_start [OF assms], of P key arr] r
  have b: "acc_pop (issued c) (\<lambda>plural. pushed P plural (called_back c)) (s', new)" by simp
  from assms have "mset (pending c @ new) + mset (called_back c) = mset (issued c @ new)"
    by (simp add: pop_inv_def)
  from config_inv [OF a b this] r show ?thesis by (simp add: start_populateArray_def)
qed

lemma mset_requested:
  "mset (requested P plural tasks) =
     (\<Sum>task \<in># mset tasks. mset (if plural_of task = plural then id_strings P task else []))"
  by (induction tasks) (simp_all add: requested_def)

lemma called_back_distinct:
  assumes "pop_inv P c"
  shows "distinct (requested P plural (called_back c))"
proof -
  from assms have m: "mset (pending c @ called_back c) = mset (issued c)"
    and d: "distinct (requested P plural (issued c))"
    by (simp_all add: pop_inv_def)
  have "mset (requested P plural (pending c @ called_back c))
          = mset (requested P plural (issued c))"
    unfolding mset_requested m ..
  from mset_eq_imp_distinct_iff [OF this] d
  have "distinct (requested P plural (pending c @ called_back c))" by simp
  then show ?thesis by simp
qed

text \<open>
  C10. An instance fresh from the constructor satisfies the invariant, and
  \<open>populateElement\<close> and \<open>populateArray\<close>, followed by the callbacks of any
  number of queries in any order, keep it. So under every plural name the ids are listed
  at most once, and they are the id strings the queries have asked for: no id is fetched
  twice. The population of the name holds one result for each query that has called back
  with one, in the order of the callbacks, and nothing else; the id strings of those
  queries are listed at most once: no document is pushed on the population twice. The
  visitors skip what is listed: \<open>visitPopulateElement\<close> answers \<open>null\<close> for a listed
  id, and the filter of \<open>visitPopulateArray\<close> keeps no listed id.
\<close>

theorem population_ids_distinct:
  "pop_inv P new_config
   \<and> (pop_inv P c \<longrightarrow>
        (\<forall>c' \<in> {pop_run P (start_populateElement P key doc c) schedule,
                 pop_run P (start_populateArray P key arr c) schedule}.
           pop_inv P c'
         \<and> (\<forall>plural. distinct (ids_of (pop_state c') plural)
               \<and> requested P plural (issued c') = ids_of (pop_state c') plural
               \<and> population_of (pop_state c') plural = pushed P plural (called_back c')
               \<and> distinct (requested P plural (called_back c')))))
   \<and> (toString P v \<in> set coll \<longrightarrow> visitPopulateElement P coll v = (coll, JNull))
   \<and> (\<forall>w \<in> set (snd (filter_first_time P coll vs)). toString P w \<notin> set coll)"
proof (intro conjI impI)
  show "pop_inv P new_config"
    by (simp add: pop_inv_def new_config_def new_Population_def ids_of_def population_of_def)
  show "\<forall>c' \<in> {pop_run P (start_populateElement P key doc c) schedule,
                 pop_run P (start_populateArray P key arr c) schedule}.
           pop_inv P c'
         \<and> (\<forall>plural. distinct (ids_of (pop_state c') plural)
               \<and> requested P plural (issued c') = ids_of (pop_state c') plural
               \<and> population_of (pop_state c') plural = pushed P plural (called_back c')
               \<and> distinct (requested P plural (called_back c')))" if "pop_inv P c"
  proof -
    have all: "\<forall>plural. distinct (ids_of (pop_state c') plural)
               \<and> requested P plural (issued c') = ids_of (pop_state c') plural
               \<and> population_of (pop_state c') plural = pushed P plural (called_back c')
               \<and> distinct (requested P plural (called_back c'))" if "pop_inv P c'" for c'
      using that called_back_distinct [OF that] by (simp add: pop_inv_def)
    have a: "pop_inv P (pop_run P (start_populateElement P key doc c) schedule)"
      by (rule pop_run_inv [OF start_populateElement_inv [OF that]])
    have b: "pop_inv P (pop_run P (start_populateArray P key arr c) schedule)"
      by (rule pop_run_inv [OF start_populateArray_inv [OF that]])
    from a b all [OF a] all [OF b] show ?thesis by blast
  qed
  show "visitPopulateElement P coll v = (coll, JNull)" if "toString P v \<in> set coll"
    using that by (simp add: visitPopulateElement_def)
  show "\<forall>w \<in> set (snd (filter_first_time P coll vs)). toString P w \<notin> set coll"
    using filter_first_time_new [of P coll vs "fst (filter_first_time P coll vs)"
        "snd (filter_first_time P coll vs)"]
    by simp
qed

lemmas population_defs =
  start_populateElement_def populateElement_def populateArray_def
  populate_sync_def populate_path_def
  example_pop_env_def example_book_def new_config_def new_Population_def
  visitPopulateElement_def visitPopulateArray_def pop_step_def complete_fetch_def
  example_fetch_def getKeyFromModel_def obj_get_def Let_def ids_of_def population_of_def

text \<open>
  A book whose author is also its first reviewer, and whose second reviewer is named
  twice: three queries in all, one for each of the authors \<open>a1\<close>, \<open>a2\<close> and
  \<open>a3\<close>, with the second query called back first; the population holds the three
  results, one for each. An author already listed is skipped by the visitor.
\<close>

theorem population_ids_distinct_witness:
  "pop_inv example_pop_env new_config
   \<and> ids_of (pop_state (pop_run example_pop_env
         (start_populateElement example_pop_env ''db:book'' example_book new_config)
         [1, 0, 0])) ''authors''
     = [''a1'', ''a2'', ''a3'']
   \<and> population_of (pop_state (pop_run example_pop_env
         (start_populateElement example_pop_env ''db:book'' example_book new_config)
         [1, 0, 0])) ''authors''
     = [JArr [JObj [(''_id'', JStr ''a2''), (''friend'', JStr ''a1'')]],
        JObj [(''_id'', JStr ''a1''), (''friend'', JStr ''a3'')],
        JObj [(''_id'', JStr ''a3''), (''friend'', JStr ''a3'')]]
   \<and> requested example_pop_env ''authors'' (called_back (pop_run example_pop_env
         (start_populateElement example_pop_env ''db:book'' example_book new_config)
         [1, 0, 0]))
     = [''a2'', ''a1'', ''a3'']
   \<and> distinct (requested example_pop_env ''authors'' (called_back (pop_run example_pop_env
         (start_populateElement example_pop_env ''db:book'' example_book new_config)
         [1, 0, 0])))
   \<and> visitPopulateElement example_pop_env [''a1''] (JStr ''a1'') = ([''a1''], JNull)"
proof -
  let ?c' = "pop_run example_pop_env
         (start_populateElement example_pop_env ''db:book'' example_book new_config) [1, 0, 0]"
  note inst = population_ids_distinct
    [of example_pop_env new_config "''db:book''" example_book "[1, 0, 0]" "[]"
      "JStr ''a1''" "[''a1'']" "[]"]
  from inst have inv0: "pop_inv example_pop_env new_config" by blast
  have listed: "toString example_pop_env (JStr ''a1'') \<in> set [''a1'']"
    by (simp add: example_pop_env_def)
  with inst
  have v: "visitPopulateElement example_pop_env [''a1''] (JStr ''a1'') = ([''a1''], JNull)"
    by blast
  with inst have d: "distinct (requested example_pop_env ''authors'' (called_back ?c'))"
    by blast
  have i: "ids_of (pop_state ?c') ''authors'' = [''a1'', ''a2'', ''a3'']"
    by (simp add: population_defs)
  have p: "population_of (pop_state ?c') ''authors''
     = [JArr [JObj [(''_id'', JStr ''a2''), (''friend'', JStr ''a1'')]],
        JObj [(''_id'', JStr ''a1''), (''friend'', JStr ''a3'')],
        JObj [(''_id'', JStr ''a3''), (''friend'', JStr ''a3'')]]"
    by (simp add: population_defs)
  have q: "requested example_pop_env ''authors'' (called_back ?c') = [''a2'', ''a1'', ''a3'']"
    by (simp add: population_defs requested_def id_strings_def)
  from inv0 d i p q v show ?thesis by simp
qed

end
